theory Spec2Isabelle
  imports Main "HOL-Library.Word"
begin

unbundle bit_operations_syntax

section \<open>GetThis: the collection pipeline of \<^verbatim>\<open>GetThis_Run.cpp\<close>\<close>

text \<open>
  A shallow embedding of the functions of \<^verbatim>\<open>src/OrcCommand/GetThis_Run.cpp\<close>:
  \<^verbatim>\<open>SampleLimitStatus\<close>, \<^verbatim>\<open>CreateSampleFileName\<close>, \<^verbatim>\<open>ConfigureSampleStreams\<close>,
  \<^verbatim>\<open>AddSamplesForMatch\<close>, \<^verbatim>\<open>AddSampleRefToCSV\<close>, \<^verbatim>\<open>FinalizeHashes\<close>, the two
  \<^verbatim>\<open>WriteSample\<close> overloads and the match callback of \<^verbatim>\<open>FindMatchingSamples\<close>.
  Windows integer types are words of their width, so that every comparison and
  addition is the machine's.
\<close>

subsection \<open>Windows base types\<close>

type_synonym WORD = "16 word"
type_synonym DWORD = "32 word"
type_synonym DWORDLONG = "64 word"
type_synonym HRESULT = "32 word"

text \<open>\<^verbatim>\<open>INFINITE\<close> is the Windows SDK constant \<^verbatim>\<open>0xFFFFFFFF\<close>, a \<^verbatim>\<open>DWORD\<close>.\<close>

definition INFINITE :: DWORD where
  "INFINITE = 0xFFFFFFFF"

subsection \<open>Limits\<close>

text \<open>
  \<^verbatim>\<open>enum LimitStatus\<close>, with the enumerators in the order of the switch statements of
  \<^verbatim>\<open>AddSamplesForMatch\<close> and \<^verbatim>\<open>FindMatchingSamples\<close>.
\<close>

datatype LimitStatus =
    NoLimits
  | SampleWithinLimits
  | GlobalSampleCountLimitReached
  | GlobalMaxBytesPerSample
  | GlobalMaxBytesTotal
  | LocalSampleCountLimitReached
  | LocalMaxBytesPerSample
  | LocalMaxBytesTotal
  | FailedToComputeLimits

text \<open>
  \<^verbatim>\<open>class Limits\<close>. The fields are the ones \<^verbatim>\<open>GetThis_Run.cpp\<close> reads and writes; their
  widths follow the prefixes of their names (\<^verbatim>\<open>dw\<close>: \<^verbatim>\<open>DWORD\<close>, \<^verbatim>\<open>dwl\<close>: \<^verbatim>\<open>DWORDLONG\<close>).
\<close>

record Limits =
  bIgnoreLimits :: bool
  dwlMaxBytesTotal :: DWORDLONG
  dwlAccumulatedBytesTotal :: DWORDLONG
  bMaxBytesTotalReached :: bool
  dwlMaxBytesPerSample :: DWORDLONG
  bMaxBytesPerSampleReached :: bool
  dwMaxSampleCount :: DWORD
  dwAccumulatedSampleCount :: DWORD
  bMaxSampleCountReached :: bool

text \<open>
  \<^verbatim>\<open>Main::SampleLimitStatus\<close> (lines 454-487). A comparison of a \<^verbatim>\<open>DWORDLONG\<close> field with
  \<^verbatim>\<open>INFINITE\<close> converts the 32-bit constant to 64 bits (\<open>ucast\<close>); the two sums are
  64-bit sums.
\<close>

definition SampleLimitStatus :: "Limits \<Rightarrow> Limits \<Rightarrow> DWORDLONG \<Rightarrow> LimitStatus" where
  "SampleLimitStatus GlobalLimits LocalLimits DataSize =
    (if bIgnoreLimits GlobalLimits then NoLimits
     else if dwMaxSampleCount GlobalLimits \<noteq> INFINITE
           \<and> dwAccumulatedSampleCount GlobalLimits \<ge> dwMaxSampleCount GlobalLimits
       then GlobalSampleCountLimitReached
     else if dwMaxSampleCount LocalLimits \<noteq> INFINITE
           \<and> dwAccumulatedSampleCount LocalLimits \<ge> dwMaxSampleCount LocalLimits
       then LocalSampleCountLimitReached
     else if dwlMaxBytesPerSample GlobalLimits \<noteq> ucast INFINITE
           \<and> DataSize > dwlMaxBytesPerSample GlobalLimits
       then GlobalMaxBytesPerSample
     else if dwlMaxBytesTotal GlobalLimits \<noteq> ucast INFINITE
           \<and> DataSize + dwlAccumulatedBytesTotal GlobalLimits > dwlMaxBytesTotal GlobalLimits
       then GlobalMaxBytesTotal
     else if dwlMaxBytesPerSample LocalLimits \<noteq> ucast INFINITE
           \<and> DataSize > dwlMaxBytesPerSample LocalLimits
       then LocalMaxBytesPerSample
     else if dwlMaxBytesTotal LocalLimits \<noteq> ucast INFINITE
           \<and> DataSize + dwlAccumulatedBytesTotal LocalLimits > dwlMaxBytesTotal LocalLimits
       then LocalMaxBytesTotal
     else SampleWithinLimits)"

text \<open>
  The evaluation order as the specification words it (section 4.2): a list of checks, each
  with the condition under which it is skipped (its maximum is the "unlimited" sentinel),
  the condition under which it triggers, and the status it yields; the first check that is
  not skipped and triggers decides.
\<close>

record limit_check =
  unlimited :: bool
  triggers :: bool
  yields :: LimitStatus

definition ordered_checks :: "Limits \<Rightarrow> Limits \<Rightarrow> DWORDLONG \<Rightarrow> limit_check list" where
  "ordered_checks g l data_size =
    [\<lparr>unlimited = (dwMaxSampleCount g = INFINITE),
      triggers = (dwAccumulatedSampleCount g \<ge> dwMaxSampleCount g),
      yields = GlobalSampleCountLimitReached\<rparr>,
     \<lparr>unlimited = (dwMaxSampleCount l = INFINITE),
      triggers = (dwAccumulatedSampleCount l \<ge> dwMaxSampleCount l),
      yields = LocalSampleCountLimitReached\<rparr>,
     \<lparr>unlimited = (dwlMaxBytesPerSample g = ucast INFINITE),
      triggers = (data_size > dwlMaxBytesPerSample g),
      yields = GlobalMaxBytesPerSample\<rparr>,
     \<lparr>unlimited = (dwlMaxBytesTotal g = ucast INFINITE),
      triggers = (data_size + dwlAccumulatedBytesTotal g > dwlMaxBytesTotal g),
      yields = GlobalMaxBytesTotal\<rparr>,
     \<lparr>unlimited = (dwlMaxBytesPerSample l = ucast INFINITE),
      triggers = (data_size > dwlMaxBytesPerSample l),
      yields = LocalMaxBytesPerSample\<rparr>,
     \<lparr>unlimited = (dwlMaxBytesTotal l = ucast INFINITE),
      triggers = (data_size + dwlAccumulatedBytesTotal l > dwlMaxBytesTotal l),
      yields = LocalMaxBytesTotal\<rparr>]"

fun first_trigger :: "limit_check list \<Rightarrow> LimitStatus" where
  "first_trigger [] = SampleWithinLimits"
| "first_trigger (c # cs) =
    (if \<not> unlimited c \<and> triggers c then yields c else first_trigger cs)"

definition evaluate_limits :: "Limits \<Rightarrow> Limits \<Rightarrow> DWORDLONG \<Rightarrow> LimitStatus" where
  "evaluate_limits g l data_size =
    (if bIgnoreLimits g then NoLimits else first_trigger (ordered_checks g l data_size))"

subsection \<open>Wide strings and the conversions of \<^verbatim>\<open>swprintf_s\<close>\<close>

text \<open>
  A \<^verbatim>\<open>WCHAR\<close> is a 16-bit code unit; \<open>wide\<close> writes a wide literal (\<^verbatim>\<open>L"data"\<close>) from its
  ASCII text.
\<close>

type_synonym WCHAR = "16 word"
type_synonym wstring = "WCHAR list"

definition wchar :: "char \<Rightarrow> WCHAR" where
  "wchar c = of_char c"

definition wide :: "string \<Rightarrow> wstring" where
  "wide s = map wchar s"

text \<open>
  The ways a call can end without returning to its caller: the C runtime's
  invalid-parameter handler (the secure \<^verbatim>\<open>swprintf_s\<close> calls it when the buffer is too
  small, and by default it ends the process), a loop that never ends, and undefined
  behaviour (a null pointer dereferenced, \<^verbatim>\<open>front()\<close> of an empty vector, an index past
  the end).
\<close>

datatype fault = CrtInvalidParameter | NeverReturns | UndefinedBehaviour

definition hex_digit :: "nat \<Rightarrow> WCHAR" where
  "hex_digit d = (if d < 10 then of_nat (48 + d) else of_nat (55 + d))"

fun hex_of :: "nat \<Rightarrow> wstring" where
  "hex_of n = (if n < 16 then [hex_digit n] else hex_of (n div 16) @ [hex_digit (n mod 16)])"

declare hex_of.simps [simp del]

fun dec_of :: "nat \<Rightarrow> wstring" where
  "dec_of n =
    (if n < 10 then [of_nat (48 + n)] else dec_of (n div 10) @ [of_nat (48 + n mod 10)])"

declare dec_of.simps [simp del]

text \<open>
  \<^verbatim>\<open>%*.*X\<close>: an unsigned value in upper-case hexadecimal, with at least \<open>prec\<close> digits
  (zeros in front; the value 0 with precision 0 has no digit), padded with blanks on the
  left to \<open>width\<close> characters.
\<close>

definition fmt_X :: "nat \<Rightarrow> nat \<Rightarrow> nat \<Rightarrow> wstring" where
  "fmt_X width prec v =
    (let ds = (if v = 0 \<and> prec = 0 then [] else hex_of v);
         zs = replicate (prec - length ds) (wchar CHR ''0'') @ ds
     in replicate (width - length zs) (wchar CHR '' '') @ zs)"

text \<open>\<^verbatim>\<open>%.*s\<close>: the characters of a wide C string, up to \<open>prec\<close> of them, up to its first NUL.\<close>

definition fmt_s :: "nat \<Rightarrow> wstring \<Rightarrow> wstring" where
  "fmt_s prec s = takeWhile (\<lambda>c. c \<noteq> 0) (take prec s)"

text \<open>\<^verbatim>\<open>%u\<close>: an unsigned value in decimal.\<close>

definition fmt_u :: "nat \<Rightarrow> wstring" where
  "fmt_u v = dec_of v"

text \<open>
  \<^verbatim>\<open>swprintf_s(buffer, sizeOfBuffer, ...)\<close> on the formatted text: it fits with its
  terminating NUL, or the invalid-parameter handler is called.
\<close>

definition swprintf_s :: "nat \<Rightarrow> wstring \<Rightarrow> fault + wstring" where
  "swprintf_s sizeOfBuffer formatted =
    (if length formatted < sizeOfBuffer then Inr formatted else Inl CrtInvalidParameter)"

definition MAX_PATH :: nat where
  "MAX_PATH = 260"

text \<open>\<^verbatim>\<open>sizeof\<close> of an integer field, in bytes.\<close>

definition sizeof :: "'a::len word \<Rightarrow> nat" where
  "sizeof x = LENGTH('a) div 8"

subsection \<open>HRESULT\<close>

definition S_OK :: HRESULT where "S_OK = 0"

definition S_FALSE :: HRESULT where "S_FALSE = 1"

definition E_FAIL :: HRESULT where "E_FAIL = 0x80004005"

definition E_POINTER :: HRESULT where "E_POINTER = 0x80004003"

definition E_INVALIDARG :: HRESULT where "E_INVALIDARG = 0x80070057"

definition E_NOTIMPL :: HRESULT where "E_NOTIMPL = 0x80004001"

text \<open>\<^verbatim>\<open>#define FAILED(hr) (((HRESULT)(hr)) < 0)\<close>\<close>

definition FAILED :: "HRESULT \<Rightarrow> bool" where
  "FAILED hr = (sint hr < 0)"

subsection \<open>NTFS structures\<close>

type_synonym FILETIME = "64 word"
type_synonym GUID = "128 word"
type_synonym bytes = "8 word list"

definition GUID_NULL :: GUID where
  "GUID_NULL = 0"

text \<open>
  \<^verbatim>\<open>MFT_SEGMENT_REFERENCE\<close> (NtfsDataStructures.h): a 32-bit low part, a 16-bit high part
  and a 16-bit sequence number, eight bytes together; \<open>QuadPart\<close> reads them as one
  little-endian 64-bit value, as the casts to \<^verbatim>\<open>LARGE_INTEGER*\<close> do.
\<close>

record MFT_SEGMENT_REFERENCE =
  SegmentNumberLowPart :: DWORD
  SegmentNumberHighPart :: WORD
  SequenceNumber :: WORD

definition QuadPart :: "MFT_SEGMENT_REFERENCE \<Rightarrow> DWORDLONG" where
  "QuadPart r =
    ucast (SegmentNumberLowPart r)
      OR push_bit 32 (ucast (SegmentNumberHighPart r))
      OR push_bit 48 (ucast (SequenceNumber r))"

record FileTimes =
  CreationTime :: FILETIME
  LastModificationTime :: FILETIME
  LastAccessTime :: FILETIME
  LastChangeTime :: FILETIME

text \<open>
  \<^verbatim>\<open>FILE_NAME\<close>: \<open>FileName\<close> holds the characters stored at \<^verbatim>\<open>pFileName->FileName\<close>.
\<close>

record FILE_NAME =
  ParentDirectory :: MFT_SEGMENT_REFERENCE
  Info :: FileTimes
  FileNameLength :: "8 word"
  FileName :: wstring

datatype ContentType = INVALID | DATA | STRINGS | RAW

record ContentSpec =
  Type :: ContentType
  MaxChars :: nat
  MinChars :: nat

subsection \<open>Naming\<close>

text \<open>
  The three \<^verbatim>\<open>%*.*X\<close> conversions every format of \<^verbatim>\<open>CreateSampleFileName\<close> starts with:
  width and precision are \<^verbatim>\<open>(int)sizeof(field) * 2\<close>.
\<close>

definition ParentDirectory_XXX :: "MFT_SEGMENT_REFERENCE \<Rightarrow> wstring" where
  "ParentDirectory_XXX r =
    fmt_X (sizeof (SequenceNumber r) * 2) (sizeof (SequenceNumber r) * 2)
        (unat (SequenceNumber r))
    @ fmt_X (sizeof (SegmentNumberHighPart r) * 2) (sizeof (SegmentNumberHighPart r) * 2)
        (unat (SegmentNumberHighPart r))
    @ fmt_X (sizeof (SegmentNumberLowPart r) * 2) (sizeof (SegmentNumberLowPart r) * 2)
        (unat (SegmentNumberLowPart r))"

text \<open>
  \<^verbatim>\<open>Main::CreateSampleFileName\<close> (lines 247-367). \<open>iswspace\<close> is the C runtime's
  classification of wide characters, a parameter here. The last argument is the value of
  the output parameter \<^verbatim>\<open>SampleFileName\<close> before the call; the result holds its value
  after it.
\<close>

definition CreateSampleFileName ::
  "(WCHAR \<Rightarrow> bool) \<Rightarrow> ContentSpec \<Rightarrow> FILE_NAME option \<Rightarrow> wstring \<Rightarrow> DWORD \<Rightarrow> wstring
    \<Rightarrow> fault + (HRESULT \<times> wstring)" where
  "CreateSampleFileName iswspace content pFileName DataName idx SampleFileName =
    (case pFileName of
       None \<Rightarrow> Inr (E_POINTER, SampleFileName)
     | Some fn \<Rightarrow>
        (let pContent =
               (case Type content of
                  DATA \<Rightarrow> wide ''data''
                | STRINGS \<Rightarrow> wide ''strings''
                | RAW \<Rightarrow> wide ''raw''
                | _ \<Rightarrow> wide []);
             xxx = ParentDirectory_XXX (ParentDirectory fn);
             name = fmt_s (unat (FileNameLength fn)) (FileName fn);
             data = fmt_s (length DataName) DataName;
             formatted =
               (if idx \<noteq> 0 then
                  (if length DataName \<noteq> 0
                   then xxx @ wide ''_'' @ name @ wide ''_'' @ data @ wide ''_''
                          @ fmt_u (unat idx) @ wide ''_'' @ pContent
                   else xxx @ wide ''__'' @ name @ wide ''_''
                          @ fmt_u (unat idx) @ wide ''_'' @ pContent)
                else
                  (if length DataName \<noteq> 0
                   then xxx @ wide ''__'' @ name @ wide ''_'' @ data @ wide ''_'' @ pContent
                   else xxx @ wide ''_'' @ name @ wide ''_'' @ pContent))
         in case swprintf_s MAX_PATH formatted of
              Inl f \<Rightarrow> Inl f
            | Inr tmpName \<Rightarrow>
                Inr (S_OK,
                     map (\<lambda>Item. if iswspace Item \<or> Item = wchar CHR '':'' \<or> Item = wchar CHR ''#''
                                 then wchar CHR ''_'' else Item)
                       tmpName)))"

subsection \<open>Byte streams and the file finder's matches\<close>

text \<open>
  \<^verbatim>\<open>CryptoHashStream::Algorithm\<close> and \<^verbatim>\<open>FuzzyHashStream::Algorithm\<close> are flag sets; the code
  only compares them with \<^verbatim>\<open>Undefined\<close>, the empty set.
\<close>

type_synonym Algorithm = "8 word"

definition Undefined :: Algorithm where
  "Undefined = 0"

text \<open>
  A stream is the volume reader's stream of an attribute (known by its handle), or one of
  the wrappers \<^verbatim>\<open>ConfigureSampleStreams\<close> builds with the arguments it is opened with.
\<close>

datatype ByteStream =
    AttributeStream nat
  | StringsStream ByteStream nat nat
  | CryptoHashStream Algorithm ByteStream
  | FuzzyHashStream Algorithm ByteStream

record Term =
  TermId :: nat
  Description :: wstring

text \<open>
  \<^verbatim>\<open>GetSnapshotID\<close> is \<open>None\<close> for a reader that is not a \<^verbatim>\<open>SnapshotVolumeReader\<close> (the
  dynamic cast of \<^verbatim>\<open>AddSamplesForMatch\<close> yields null).
\<close>

record VolumeReader =
  VolumeSerialNumber :: DWORDLONG
  GetSnapshotID :: "GUID option"

text \<open>\<^verbatim>\<open>FILENAME\<close> is the pointer \<^verbatim>\<open>name.FILENAME()\<close>; \<open>None\<close> is the null pointer.\<close>

record NameMatch =
  FILENAME :: "FILE_NAME option"
  FullPathName :: wstring

text \<open>
  The fields of a matching attribute. \<open>Type_attr\<close> and \<open>InstanceID_attr\<close> are the
  members \<^verbatim>\<open>Type\<close> and \<^verbatim>\<open>InstanceID\<close>, suffixed because a sample has fields of these names.
\<close>

record AttributeMatch =
  Type_attr :: DWORD
  AttrName :: wstring
  InstanceID_attr :: WORD
  DataStream :: ByteStream
  RawStream :: ByteStream
  YaraRules :: "string list option"

record Match =
  FRN_match :: MFT_SEGMENT_REFERENCE
  VolumeReader :: VolumeReader
  StandardInformation :: FileTimes
  MatchingNames :: "NameMatch list"
  MatchingAttributes :: "AttributeMatch list"
  Term :: Term

subsection \<open>Samples, configuration and the state of \<^verbatim>\<open>Main\<close>\<close>

text \<open>
  \<^verbatim>\<open>Main::SampleRef\<close>. The three stream members are shared pointers, \<open>None\<close> when null.
\<close>

record SampleRef =
  Matches :: "Match list"
  VolumeSerial :: DWORDLONG
  SnapshotID :: GUID
  FRN :: MFT_SEGMENT_REFERENCE
  InstanceID :: WORD
  AttributeIndex :: nat
  OffLimits :: bool
  Content :: ContentSpec
  CollectionDate :: FILETIME
  SampleName :: wstring
  HashStream :: "ByteStream option"
  FuzzyHashStream_ref :: "ByteStream option"
  CopyStream :: "ByteStream option"
  SampleSize :: DWORDLONG
  MD5 :: bytes
  SHA1 :: bytes
  SHA256 :: bytes
  SSDeep :: bytes
  TLSH :: bytes

text \<open>
  A \<^verbatim>\<open>SampleRef\<close> as \<^verbatim>\<open>SampleRef sampleRef;\<close> leaves it: the vector, the strings, the
  buffers and the shared pointers are empty by their default constructors; the scalar
  members, which the code assigns before it reads them, are zero here.
\<close>

definition SampleRef_default :: SampleRef where
  "SampleRef_default =
    \<lparr>Matches = [], VolumeSerial = 0, SnapshotID = GUID_NULL,
     FRN = \<lparr>SegmentNumberLowPart = 0, SegmentNumberHighPart = 0, SequenceNumber = 0\<rparr>,
     InstanceID = 0, AttributeIndex = 0, OffLimits = False,
     Content = \<lparr>Type = INVALID, MaxChars = 0, MinChars = 0\<rparr>,
     CollectionDate = 0, SampleName = [],
     HashStream = None, FuzzyHashStream_ref = None, CopyStream = None, SampleSize = 0,
     MD5 = [], SHA1 = [], SHA256 = [], SSDeep = [], TLSH = []\<rparr>"

text \<open>
  Modelled from the spec: the order of the set \<^verbatim>\<open>Samples\<close> (\<^verbatim>\<open>SampleRef::operator<\<close>, declared in
  GetThis.h, which is not in the sources). The specification keys the registry by
  "(volume-serial, frn, attribute-instance-id)": two samples are the same element when
  these three agree. The set is a map from this key.
\<close>

type_synonym SampleKey = "DWORDLONG \<times> MFT_SEGMENT_REFERENCE \<times> WORD"

definition sample_key :: "SampleRef \<Rightarrow> SampleKey" where
  "sample_key s = (VolumeSerial s, FRN s, InstanceID s)"

record SampleSpec =
  Name :: wstring
  Terms :: "Term list"
  Content_spec :: ContentSpec
  PerSampleLimits :: Limits

record Config =
  content :: ContentSpec
  CryptoHashAlgs :: Algorithm
  FuzzyHashAlgs :: Algorithm
  bReportAll :: bool
  listofSpecs :: "SampleSpec list"

text \<open>
  What the collaborators outside \<^verbatim>\<open>GetThis_Run.cpp\<close> answer: the C runtime's \<^verbatim>\<open>iswspace\<close>,
  the results of opening the wrapper streams, the size of a stream, the digests the hash
  streams hold (they depend on which streams have been read to their end), the full name
  of a match, \<^verbatim>\<open>std::filesystem\<close>'s path functions, and the results of the file operations of
  the directory sink (\<open>create_directories\<close> gives the error code, 0 for none).
\<close>

record Platform =
  iswspace :: "WCHAR \<Rightarrow> bool"
  OpenForStrings :: "ByteStream \<Rightarrow> nat \<Rightarrow> nat \<Rightarrow> HRESULT"
  CryptoOpenToRead :: "Algorithm \<Rightarrow> ByteStream \<Rightarrow> HRESULT"
  FuzzyOpenToRead :: "Algorithm \<Rightarrow> ByteStream \<Rightarrow> HRESULT"
  GetSize :: "ByteStream \<Rightarrow> DWORDLONG"
  GetMD5 :: "ByteStream set \<Rightarrow> ByteStream \<Rightarrow> bytes"
  GetSHA1 :: "ByteStream set \<Rightarrow> ByteStream \<Rightarrow> bytes"
  GetSHA256 :: "ByteStream set \<Rightarrow> ByteStream \<Rightarrow> bytes"
  GetSSDeep :: "ByteStream set \<Rightarrow> ByteStream \<Rightarrow> bytes"
  GetTLSH :: "ByteStream set \<Rightarrow> ByteStream \<Rightarrow> bytes"
  GetMatchFullName :: "Match \<Rightarrow> NameMatch \<Rightarrow> AttributeMatch \<Rightarrow> wstring"
  path_append :: "wstring \<Rightarrow> wstring \<Rightarrow> wstring"
  parent_path :: "wstring \<Rightarrow> wstring"
  create_directories :: "wstring \<Rightarrow> DWORD"
  WriteTo :: "wstring \<Rightarrow> HRESULT"
  CopyTo :: "ByteStream \<Rightarrow> HRESULT"
  Close_file :: "wstring \<Rightarrow> HRESULT"
  Close_stream :: "ByteStream \<Rightarrow> HRESULT"
  FlushOnAdd :: "wstring \<Rightarrow> bool"

text \<open>The calls on the table writer that make one cell of a row.\<close>

datatype cell =
    WriteString wstring
  | WriteInteger nat
  | WriteFileSize DWORDLONG
  | WriteBytes bytes
  | WriteFileTime FILETIME
  | WriteExactFlags DWORD
  | WriteGUID GUID
  | WriteNothing

text \<open>
  What the run puts out, in the order it does: an entry of the archive (the encoder has
  read the stream to its end), a row of the table, a file of the directory sink opened
  for writing, a stream copied into it.
\<close>

datatype emitted =
    ArchiveEntry wstring wstring ByteStream
  | CsvRow "cell list"
  | FileOpened wstring
  | FileCopied wstring ByteStream

text \<open>
  An item the archive encoder holds: the name in the archive, the display name, the
  stream, and the sample whose \<^verbatim>\<open>itemArchivedCb\<close> the call passed (the lambda captures a
  reference to the sample, an element of \<^verbatim>\<open>Samples\<close>).
\<close>

record ArchiveItem =
  NameInArchive :: wstring
  Path :: wstring
  Stream :: ByteStream
  ArchivedCallback :: "SampleKey option"

text \<open>
  The members of \<^verbatim>\<open>Main\<close> the pipeline uses. \<open>m_compressor\<close> is the queue of the archive
  encoder; \<open>streams_read\<close> are the streams that have been read to their end; \<open>written\<close> is
  the output so far.
\<close>

record Main =
  config :: Config
  GlobalLimits :: Limits
  Samples :: "SampleKey \<rightharpoonup> SampleRef"
  SampleNames :: "wstring set"
  CollectionDate_run :: FILETIME
  ComputerName :: wstring
  m_compressor :: "ArchiveItem list"
  streams_read :: "ByteStream set"
  written :: "emitted list"

subsection \<open>The stream pipeline\<close>

text \<open>
  \<^verbatim>\<open>sampleRef.Matches.front()->MatchingAttributes[sampleRef.AttributeIndex]\<close>; \<open>None\<close> where
  the vector of matches is empty or the index is past the end.
\<close>

definition sample_attribute :: "SampleRef \<Rightarrow> AttributeMatch option" where
  "sample_attribute sampleRef =
    (case Matches sampleRef of
       [] \<Rightarrow> None
     | m # _ \<Rightarrow>
        (if AttributeIndex sampleRef < length (MatchingAttributes m)
         then Some (MatchingAttributes m ! AttributeIndex sampleRef) else None))"

text \<open>
  The switch of \<^verbatim>\<open>ConfigureSampleStreams\<close> on the content type (lines 382-422): the stream
  the chain starts with, or the HRESULT with which opening the strings stream failed.
\<close>

definition base_stream ::
  "Platform \<Rightarrow> Config \<Rightarrow> SampleRef \<Rightarrow> AttributeMatch \<Rightarrow> HRESULT + ByteStream" where
  "base_stream P cfg sampleRef attr =
    (case Type (Content sampleRef) of
       DATA \<Rightarrow> Inr (DataStream attr)
     | STRINGS \<Rightarrow>
        (if MaxChars (Content sampleRef) = 0 \<and> MinChars (Content sampleRef) = 0
         then
           (let hr = OpenForStrings P (DataStream attr)
                       (MinChars (content cfg)) (MaxChars (content cfg))
            in if FAILED hr then Inl hr
               else Inr (StringsStream (DataStream attr)
                           (MinChars (content cfg)) (MaxChars (content cfg))))
         else
           (let hr = OpenForStrings P (DataStream attr)
                       (MinChars (Content sampleRef)) (MaxChars (Content sampleRef))
            in if FAILED hr then Inl hr
               else Inr (StringsStream (DataStream attr)
                           (MinChars (Content sampleRef)) (MaxChars (Content sampleRef)))))
     | RAW \<Rightarrow> Inr (RawStream attr)
     | _ \<Rightarrow> Inr (DataStream attr))"

text \<open>
  The crypto-hash stage (lines 426-438) and the fuzzy-hash stage (lines 440-447): the new
  upstream and the sample, or the failure the function returns with. A hash stream is
  stored in the sample before it is opened, so it stays there when opening fails.
\<close>

definition chain_crypto ::
  "Platform \<Rightarrow> Config \<Rightarrow> ByteStream \<Rightarrow> SampleRef
    \<Rightarrow> (HRESULT \<times> SampleRef) + (ByteStream \<times> SampleRef)" where
  "chain_crypto P cfg stream sampleRef =
    (let algs = CryptoHashAlgs cfg
     in if algs \<noteq> Undefined
        then
          (let hashing = sampleRef\<lparr>HashStream := Some (CryptoHashStream algs stream)\<rparr>;
               hr = CryptoOpenToRead P algs stream
           in if FAILED hr then Inl (hr, hashing)
              else Inr (CryptoHashStream algs stream, hashing))
        else Inr (stream, sampleRef))"

definition chain_fuzzy ::
  "Platform \<Rightarrow> Config \<Rightarrow> ByteStream \<Rightarrow> SampleRef
    \<Rightarrow> (HRESULT \<times> SampleRef) + (ByteStream \<times> SampleRef)" where
  "chain_fuzzy P cfg upstream sampleRef =
    (let fuzzy_algs = FuzzyHashAlgs cfg
     in if fuzzy_algs \<noteq> Undefined
        then
          (let hashing = sampleRef\<lparr>FuzzyHashStream_ref :=
                                     Some (FuzzyHashStream fuzzy_algs upstream)\<rparr>;
               hr = FuzzyOpenToRead P fuzzy_algs upstream
           in if FAILED hr then Inl (hr, hashing)
              else Inr (FuzzyHashStream fuzzy_algs upstream, hashing))
        else Inr (upstream, sampleRef))"

text \<open>
  \<^verbatim>\<open>Main::ConfigureSampleStreams\<close> (lines 369-452), without the debug-only \<^verbatim>\<open>_ASSERT\<close>. The
  result is the HRESULT and the sample as the call leaves it.
\<close>

definition ConfigureSampleStreams ::
  "Platform \<Rightarrow> Config \<Rightarrow> SampleRef \<Rightarrow> fault + (HRESULT \<times> SampleRef)" where
  "ConfigureSampleStreams P cfg sampleRef =
    (if SampleName sampleRef = [] then Inr (E_INVALIDARG, sampleRef)
     else
       case sample_attribute sampleRef of
         None \<Rightarrow> Inl UndefinedBehaviour
       | Some attr \<Rightarrow>
          (case base_stream P cfg sampleRef attr of
             Inl hr \<Rightarrow> Inr (hr, sampleRef)
           | Inr stream \<Rightarrow>
              (case chain_crypto P cfg stream sampleRef of
                 Inl failed \<Rightarrow> Inr failed
               | Inr (upstream, hashing) \<Rightarrow>
                  (case chain_fuzzy P cfg upstream hashing of
                     Inl failed \<Rightarrow> Inr failed
                   | Inr (upstream', hashing') \<Rightarrow>
                       Inr (S_OK, hashing'\<lparr>CopyStream := Some upstream',
                                           SampleSize := GetSize P upstream'\<rparr>)))))"

subsection \<open>Ingestion of a match\<close>

text \<open>
  The \<^verbatim>\<open>do ... while\<close> loop of \<^verbatim>\<open>AddSamplesForMatch\<close> (lines 680-695) from the index
  \<open>dwIdx\<close> on, with the string \<^verbatim>\<open>CabSampleName\<close> as it stands; the result is the string when
  the loop is left, by the \<^verbatim>\<open>break\<close> after a failure of \<^verbatim>\<open>CreateSampleFileName\<close> or with a
  name that is not in use. \<open>dwIdx\<close> is a \<^verbatim>\<open>DWORD\<close>: when every one of its values gives a
  name in use, it is 0 again with nothing else changed, and the loop never ends.
\<close>

function unused_sample_name ::
  "Platform \<Rightarrow> wstring set \<Rightarrow> SampleSpec \<Rightarrow> ContentSpec \<Rightarrow> FILE_NAME option \<Rightarrow> wstring
    \<Rightarrow> DWORD \<Rightarrow> wstring \<Rightarrow> fault + wstring" where
  "unused_sample_name P names aSpec sampleContent pFileName DataName dwIdx CabSampleName =
    (case CreateSampleFileName (iswspace P) sampleContent pFileName DataName dwIdx
            CabSampleName of
       Inl f \<Rightarrow> Inl f
     | Inr (hr, generated) \<Rightarrow>
        if FAILED hr then Inr generated
        else
          (let prefixed =
                 (if Name aSpec \<noteq> [] then Name aSpec @ wide [CHR 0x5C] @ generated
                  else generated)
           in if prefixed \<in> names
              then (if dwIdx + 1 = 0 then Inl NeverReturns
                    else unused_sample_name P names aSpec sampleContent pFileName DataName
                           (dwIdx + 1) prefixed)
              else Inr prefixed))"
  by pat_completeness auto
termination
proof (relation "measure (\<lambda>(P, names, aSpec, sampleContent, pFileName, DataName, dwIdx, cab).
                          2 ^ 32 - unat dwIdx)")
  show "wf (measure (\<lambda>(P, names, aSpec, sampleContent, pFileName, DataName, dwIdx, cab).
                          2 ^ 32 - unat (dwIdx :: DWORD)))"
    by simp
next
  fix dwIdx :: DWORD
  fix P :: Platform and names :: "wstring set" and aSpec :: SampleSpec
    and sampleContent :: ContentSpec and pFileName :: "FILE_NAME option"
    and DataName CabSampleName prefixed :: wstring
  assume "dwIdx + 1 \<noteq> 0"
  then have "unat (dwIdx + 1) = Suc (unat dwIdx)"
    by (simp add: unatSuc add.commute)
  moreover have "unat (dwIdx + 1) < 2 ^ 32"
    using unsigned_less [of "dwIdx + 1"] by simp
  ultimately show
    "((P, names, aSpec, sampleContent, pFileName, DataName, dwIdx + 1, prefixed),
      (P, names, aSpec, sampleContent, pFileName, DataName, dwIdx, CabSampleName))
       \<in> measure (\<lambda>(P, names, aSpec, sampleContent, pFileName, DataName, dwIdx, cab).
                    2 ^ 32 - unat dwIdx)"
    by simp
qed

declare unused_sample_name.simps [simp del]

text \<open>
  The loop over \<^verbatim>\<open>aMatch->MatchingNames\<close> (lines 670-699): it carries \<^verbatim>\<open>SampleNames\<close> and
  the sample under construction; for each name \<^verbatim>\<open>CabSampleName\<close> starts empty and
  \<^verbatim>\<open>dwIdx\<close> at 0, and each name overwrites \<^verbatim>\<open>SampleName\<close>.
\<close>

fun name_sample ::
  "Platform \<Rightarrow> SampleSpec \<Rightarrow> AttributeMatch \<Rightarrow> FILETIME \<Rightarrow> NameMatch list
    \<Rightarrow> wstring set \<Rightarrow> SampleRef \<Rightarrow> fault + (wstring set \<times> SampleRef)" where
  "name_sample P aSpec anAttr date [] names sampleRef = Inr (names, sampleRef)"
| "name_sample P aSpec anAttr date (name # rest) names sampleRef =
    (let s1 = sampleRef\<lparr>Content := Content_spec aSpec, CollectionDate := date\<rparr>
     in case unused_sample_name P names aSpec (Content s1) (FILENAME name) (AttrName anAttr)
               0 [] of
          Inl f \<Rightarrow> Inl f
        | Inr CabSampleName \<Rightarrow>
            name_sample P aSpec anAttr date rest (insert CabSampleName names)
              (s1\<lparr>SampleName := CabSampleName\<rparr>))"

text \<open>
  The body of the loop over \<^verbatim>\<open>aMatch->MatchingAttributes\<close> (lines 619-706) for the attribute
  at index \<open>sIndex\<close>: the value it leaves in \<^verbatim>\<open>hr\<close>, and the state. For a duplicate the
  code takes \<^verbatim>\<open>aMatch->MatchingNames.front()\<close> for its log line.
\<close>

definition add_attribute ::
  "Platform \<Rightarrow> LimitStatus \<Rightarrow> SampleSpec \<Rightarrow> Match \<Rightarrow> AttributeMatch \<Rightarrow> nat \<Rightarrow> Main
    \<Rightarrow> fault + (HRESULT \<times> Main)" where
  "add_attribute P status aSpec aMatch anAttr sIndex st =
    (let sampleRef = SampleRef_default
           \<lparr>Matches := [aMatch],
            VolumeSerial := VolumeSerialNumber (VolumeReader aMatch),
            SnapshotID :=
              (case GetSnapshotID (VolumeReader aMatch) of
                 Some snapshot \<Rightarrow> snapshot
               | None \<Rightarrow> GUID_NULL),
            FRN := FRN_match aMatch,
            InstanceID := InstanceID_attr anAttr,
            AttributeIndex := sIndex,
            OffLimits :=
              (case status of
                 NoLimits \<Rightarrow> False
               | SampleWithinLimits \<Rightarrow> False
               | GlobalSampleCountLimitReached \<Rightarrow> True
               | GlobalMaxBytesPerSample \<Rightarrow> True
               | GlobalMaxBytesTotal \<Rightarrow> True
               | LocalSampleCountLimitReached \<Rightarrow> True
               | LocalMaxBytesPerSample \<Rightarrow> True
               | LocalMaxBytesTotal \<Rightarrow> True
               | FailedToComputeLimits \<Rightarrow> True)\<rparr>
     in case Samples st (sample_key sampleRef) of
          Some prevSample \<Rightarrow>
           (case MatchingNames aMatch of
              [] \<Rightarrow> Inl UndefinedBehaviour
            | name # _ \<Rightarrow> Inr (S_FALSE, st))
        | None \<Rightarrow>
           (case name_sample P aSpec anAttr (CollectionDate_run st) (MatchingNames aMatch)
                   (SampleNames st) sampleRef of
              Inl f \<Rightarrow> Inl f
            | Inr (names, named) \<Rightarrow>
               (case ConfigureSampleStreams P (config st) named of
                  Inl f \<Rightarrow> Inl f
                | Inr (hr, configured) \<Rightarrow>
                    Inr (hr, st\<lparr>SampleNames := names,
                                Samples := (Samples st)(sample_key configured \<mapsto> configured)\<rparr>))))"

fun add_attributes ::
  "Platform \<Rightarrow> LimitStatus \<Rightarrow> SampleSpec \<Rightarrow> Match \<Rightarrow> AttributeMatch list \<Rightarrow> nat \<Rightarrow> HRESULT
    \<Rightarrow> Main \<Rightarrow> fault + (HRESULT \<times> Main)" where
  "add_attributes P status aSpec aMatch [] sIndex hr st = Inr (hr, st)"
| "add_attributes P status aSpec aMatch (anAttr # rest) sIndex hr st =
    (case add_attribute P status aSpec aMatch anAttr sIndex st of
       Inl f \<Rightarrow> Inl f
     | Inr (hr', st') \<Rightarrow> add_attributes P status aSpec aMatch rest (Suc sIndex) hr' st')"

text \<open>\<^verbatim>\<open>Main::AddSamplesForMatch\<close> (lines 611-712).\<close>

definition AddSamplesForMatch ::
  "Platform \<Rightarrow> LimitStatus \<Rightarrow> SampleSpec \<Rightarrow> Match \<Rightarrow> Main \<Rightarrow> fault + (HRESULT \<times> Main)" where
  "AddSamplesForMatch P status aSpec aMatch st =
    (case add_attributes P status aSpec aMatch (MatchingAttributes aMatch) 0 E_FAIL st of
       Inl f \<Rightarrow> Inl f
     | Inr (hr, st') \<Rightarrow> Inr (if hr = S_FALSE then hr else S_OK, st'))"

subsection \<open>The report and the hashes\<close>

text \<open>
  One turn of the inner loop of \<^verbatim>\<open>Main::AddSampleRefToCSV\<close> (lines 516-604): the cells of
  the row of one name of one match. The code dereferences \<^verbatim>\<open>name.FILENAME()\<close> and indexes
  \<^verbatim>\<open>MatchingAttributes\<close> without a check. The rules are written one after the other, each
  followed by the delimiter.
\<close>

definition csv_row :: "wstring \<Rightarrow> SampleRef \<Rightarrow> Match \<Rightarrow> NameMatch \<Rightarrow> fault + cell list" where
  "csv_row computer sample match name =
    (case FILENAME name of
       None \<Rightarrow> Inl UndefinedBehaviour
     | Some fn \<Rightarrow>
        if AttributeIndex sample < length (MatchingAttributes match)
        then
          (let attr = MatchingAttributes match ! AttributeIndex sample
           in Inr
             [WriteString computer,
              WriteInteger (unat (VolumeSerialNumber (VolumeReader match))),
              WriteInteger (unat (QuadPart (ParentDirectory fn))),
              WriteInteger (unat (QuadPart (FRN_match match))),
              WriteString (FullPathName name),
              (if OffLimits sample then WriteNothing else WriteString (SampleName sample)),
              WriteFileSize (SampleSize sample),
              WriteBytes (MD5 sample),
              WriteBytes (SHA1 sample),
              WriteString (Description (Term match)),
              (case Type (Content sample) of
                 DATA \<Rightarrow> WriteString (wide ''data'')
               | STRINGS \<Rightarrow> WriteString (wide ''strings'')
               | _ \<Rightarrow> WriteNothing),
              WriteFileTime (CollectionDate sample),
              WriteFileTime (CreationTime (StandardInformation match)),
              WriteFileTime (LastModificationTime (StandardInformation match)),
              WriteFileTime (LastAccessTime (StandardInformation match)),
              WriteFileTime (LastChangeTime (StandardInformation match)),
              WriteFileTime (CreationTime (Info fn)),
              WriteFileTime (LastModificationTime (Info fn)),
              WriteFileTime (LastAccessTime (Info fn)),
              WriteFileTime (LastChangeTime (Info fn)),
              WriteExactFlags (Type_attr attr),
              WriteString (AttrName attr),
              WriteInteger (unat (InstanceID sample)),
              WriteGUID (SnapshotID sample),
              WriteBytes (SHA256 sample),
              WriteBytes (SSDeep sample),
              WriteBytes (TLSH sample),
              (case YaraRules attr of
                 Some rules \<Rightarrow> WriteString (wide (concat (map (\<lambda>rule. rule @ ''; '') rules)))
               | None \<Rightarrow> WriteNothing)])
        else Inl UndefinedBehaviour)"

fun csv_rows ::
  "wstring \<Rightarrow> SampleRef \<Rightarrow> (Match \<times> NameMatch) list \<Rightarrow> fault + cell list list" where
  "csv_rows computer sample [] = Inr []"
| "csv_rows computer sample ((match, name) # rest) =
    (case csv_row computer sample match name of
       Inl f \<Rightarrow> Inl f
     | Inr row \<Rightarrow>
        (case csv_rows computer sample rest of
           Inl f \<Rightarrow> Inl f
         | Inr rows \<Rightarrow> Inr (row # rows)))"

text \<open>
  \<^verbatim>\<open>Main::AddSampleRefToCSV\<close> (lines 489-609): the HRESULT and the rows written, one for
  each name of each match of the sample.
\<close>

definition AddSampleRefToCSV :: "wstring \<Rightarrow> SampleRef \<Rightarrow> fault + (HRESULT \<times> cell list list)" where
  "AddSampleRefToCSV computer sample =
    (case csv_rows computer sample
            (concat (map (\<lambda>match. map (Pair match) (MatchingNames match)) (Matches sample))) of
       Inl f \<Rightarrow> Inl f
     | Inr rows \<Rightarrow> Inr (S_OK, rows))"

text \<open>
  \<^verbatim>\<open>Main::FinalizeHashes\<close> (lines 831-862), on the sample and the set of streams read to
  their end: the sample with its buffers filled, and the set after the call. A failure of
  \<^verbatim>\<open>CopyTo\<close> is only logged.
\<close>

definition FinalizeHashes ::
  "Platform \<Rightarrow> Config \<Rightarrow> SampleRef \<Rightarrow> ByteStream set \<Rightarrow> fault + (SampleRef \<times> ByteStream set)" where
  "FinalizeHashes P cfg sample reads =
    (case HashStream sample of
       None \<Rightarrow> Inr (sample, reads)
     | Some hashStream \<Rightarrow>
        (case (if OffLimits sample \<and> bReportAll cfg \<and> CryptoHashAlgs cfg \<noteq> Undefined
               then (case CopyStream sample of
                       None \<Rightarrow> Inl UndefinedBehaviour
                     | Some copyStream \<Rightarrow> Inr (insert copyStream reads))
               else Inr reads) of
           Inl f \<Rightarrow> Inl f
         | Inr reads' \<Rightarrow>
            (let hashed = sample\<lparr>MD5 := GetMD5 P reads' hashStream,
                                 SHA1 := GetSHA1 P reads' hashStream,
                                 SHA256 := GetSHA256 P reads' hashStream\<rparr>
             in case FuzzyHashStream_ref sample of
                  None \<Rightarrow> Inr (hashed, reads')
                | Some fuzzyStream \<Rightarrow>
                    Inr (hashed\<lparr>SSDeep := GetSSDeep P reads' fuzzyStream,
                                TLSH := GetTLSH P reads' fuzzyStream\<rparr>, reads'))))"

subsection \<open>The archive sink\<close>

text \<open>
  The lambda \<^verbatim>\<open>itemArchivedCb\<close> of \<^verbatim>\<open>WriteSample\<close> (lines 725-737), for the sample it
  captures: it finalizes the hashes of the element of \<^verbatim>\<open>Samples\<close> and writes its rows.
\<close>

definition itemArchivedCb :: "Platform \<Rightarrow> SampleKey \<Rightarrow> Main \<Rightarrow> fault + Main" where
  "itemArchivedCb P k st =
    (case Samples st k of
       None \<Rightarrow> Inl UndefinedBehaviour
     | Some sample \<Rightarrow>
        (case FinalizeHashes P (config st) sample (streams_read st) of
           Inl f \<Rightarrow> Inl f
         | Inr (finalized, reads) \<Rightarrow>
            (case AddSampleRefToCSV (ComputerName st) finalized of
               Inl f \<Rightarrow> Inl f
             | Inr (hr, rows) \<Rightarrow>
                 Inr (st\<lparr>Samples := (Samples st)(k \<mapsto> finalized),
                         streams_read := reads,
                         written := written st @ map CsvRow rows\<rparr>))))"

text \<open>
  Modelled from the spec: the archive encoder \<^verbatim>\<open>ArchiveCreate\<close>, whose code is not in the
  sources. The spec treats it as "an appender with a per-entry completion callback",
  which it invokes "synchronously from write or flush", after it has consumed the entry's
  stream; a write without a usable stream "will error". \<open>archive_item\<close> is the encoder
  working on one item; \<open>FlushOnAdd\<close> says whether \<^verbatim>\<open>AddStream\<close> works through the queue at
  once or leaves it to \<^verbatim>\<open>FlushQueue\<close>.
\<close>

definition archive_item :: "Platform \<Rightarrow> ArchiveItem \<Rightarrow> Main \<Rightarrow> fault + Main" where
  "archive_item P item st =
    (let consumed = st\<lparr>streams_read := insert (Stream item) (streams_read st),
                       written := written st
                         @ [ArchiveEntry (NameInArchive item) (Path item) (Stream item)]\<rparr>
     in case ArchivedCallback item of
          None \<Rightarrow> Inr consumed
        | Some k \<Rightarrow> itemArchivedCb P k consumed)"

fun archive_items :: "Platform \<Rightarrow> ArchiveItem list \<Rightarrow> Main \<Rightarrow> fault + Main" where
  "archive_items P [] st = Inr st"
| "archive_items P (item # rest) st =
    (case archive_item P item st of
       Inl f \<Rightarrow> Inl f
     | Inr st' \<Rightarrow> archive_items P rest st')"

definition FlushQueue :: "Platform \<Rightarrow> Main \<Rightarrow> fault + Main" where
  "FlushQueue P st = archive_items P (m_compressor st) (st\<lparr>m_compressor := []\<rparr>)"

definition AddStream ::
  "Platform \<Rightarrow> wstring \<Rightarrow> wstring \<Rightarrow> ByteStream option \<Rightarrow> SampleKey option \<Rightarrow> Main
    \<Rightarrow> fault + (HRESULT \<times> Main)" where
  "AddStream P name display stream callback st =
    (case stream of
       None \<Rightarrow> Inr (E_POINTER, st)
     | Some s \<Rightarrow>
        (let queued = st\<lparr>m_compressor := m_compressor st
                            @ [\<lparr>NameInArchive = name, Path = display, Stream = s,
                                ArchivedCallback = callback\<rparr>]\<rparr>
         in if FlushOnAdd P name
            then (case FlushQueue P queued of
                    Inl f \<Rightarrow> Inl f
                  | Inr flushed \<Rightarrow> Inr (S_OK, flushed))
            else Inr (S_OK, queued)))"

text \<open>
  \<^verbatim>\<open>Main::WriteSample\<close> for the archive (lines 714-746). The sample is an element of
  \<^verbatim>\<open>Samples\<close>, passed by reference; the model passes its key. A failure of \<^verbatim>\<open>AddStream\<close> is
  only logged.
\<close>

definition WriteSample_archive :: "Platform \<Rightarrow> SampleKey \<Rightarrow> Main \<Rightarrow> fault + (HRESULT \<times> Main)" where
  "WriteSample_archive P k st =
    (case Samples st k of
       None \<Rightarrow> Inl UndefinedBehaviour
     | Some sample \<Rightarrow>
        if OffLimits sample then Inr (S_OK, st)
        else
          (case Matches sample of
             [] \<Rightarrow> Inl UndefinedBehaviour
           | m # _ \<Rightarrow>
              (case MatchingNames m of
                 [] \<Rightarrow> Inl UndefinedBehaviour
               | name # _ \<Rightarrow>
                  (case MatchingAttributes m of
                     [] \<Rightarrow> Inl UndefinedBehaviour
                   | attr # _ \<Rightarrow>
                      (let strName = GetMatchFullName P m name attr
                       in case AddStream P (SampleName sample) strName (CopyStream sample)
                                 (Some k) st of
                            Inl f \<Rightarrow> Inl f
                          | Inr (hr, st') \<Rightarrow> Inr (S_OK, st'))))))"

subsection \<open>The directory sink\<close>

text \<open>
  \<^verbatim>\<open>#define HRESULT_FROM_WIN32(x)\<close>: a value that is not positive as a signed number stays,
  any other gets the facility and the failure bit.
\<close>

definition HRESULT_FROM_WIN32 :: "DWORD \<Rightarrow> HRESULT" where
  "HRESULT_FROM_WIN32 x = (if sint x \<le> 0 then x else (x AND 0x0000FFFF) OR 0x80070000)"

text \<open>
  \<^verbatim>\<open>CopyStream\<close> of the anonymous namespace (lines 172-215). A failure to close the input
  stream is only a warning.
\<close>

definition CopyStream_to :: "Platform \<Rightarrow> ByteStream \<Rightarrow> wstring \<Rightarrow> Main \<Rightarrow> HRESULT \<times> Main" where
  "CopyStream_to P src outPath st =
    (let ec = create_directories P (parent_path P outPath)
     in if ec \<noteq> 0 then (HRESULT_FROM_WIN32 ec, st)
        else
          (let hr = WriteTo P outPath
           in if FAILED hr then (hr, st)
              else
                (let opened = st\<lparr>written := written st @ [FileOpened outPath]\<rparr>;
                     hr = CopyTo P src
                 in if FAILED hr then (hr, opened)
                    else
                      (let copied = opened\<lparr>streams_read := insert src (streams_read opened),
                                            written := written opened @ [FileCopied outPath src]\<rparr>;
                           hr = Close_file P outPath
                       in if FAILED hr then (hr, copied) else (S_OK, copied)))))"

text \<open>\<^verbatim>\<open>Main::WriteSample\<close> for the directory (lines 765-809).\<close>

definition WriteSample_directory ::
  "Platform \<Rightarrow> wstring \<Rightarrow> SampleKey \<Rightarrow> Main \<Rightarrow> fault + (HRESULT \<times> Main)" where
  "WriteSample_directory P outputDir k st =
    (case Samples st k of
       None \<Rightarrow> Inl UndefinedBehaviour
     | Some sample \<Rightarrow>
        if OffLimits sample then Inr (S_OK, st)
        else
          (let sampleFile = path_append P outputDir (SampleName sample);
               ec = create_directories P (parent_path P sampleFile)
           in if ec \<noteq> 0 then Inr (HRESULT_FROM_WIN32 ec, st)
              else
                (case CopyStream sample of
                   None \<Rightarrow> Inl UndefinedBehaviour
                 | Some src \<Rightarrow>
                    (case CopyStream_to P src sampleFile st of
                       (hr, copied) \<Rightarrow>
                        if FAILED hr then Inr (hr, copied)
                        else
                          (case FinalizeHashes P (config copied) sample (streams_read copied) of
                             Inl f \<Rightarrow> Inl f
                           | Inr (finalized, reads) \<Rightarrow>
                              (case AddSampleRefToCSV (ComputerName copied) finalized of
                                 Inl f \<Rightarrow> Inl f
                               | Inr (hr, rows) \<Rightarrow>
                                  (let reported =
                                         copied\<lparr>Samples := (Samples copied)(k \<mapsto> finalized),
                                                streams_read := reads,
                                                written := written copied @ map CsvRow rows\<rparr>
                                   in if FAILED hr then Inr (hr, reported)
                                      else Inr (S_OK, reported))))))))"

subsection \<open>The match callback of \<^verbatim>\<open>FindMatchingSamples\<close>\<close>

text \<open>
  The \<^verbatim>\<open>find_if\<close> of the callback (lines 1053-1057): the position in \<^verbatim>\<open>config.listofSpecs\<close> of
  the first specification whose terms hold the term of the match.
\<close>

fun find_spec :: "Term \<Rightarrow> SampleSpec list \<Rightarrow> nat option" where
  "find_spec t [] = None"
| "find_spec t (aSpec # specs) =
    (if t \<in> set (Terms aSpec) then Some 0
     else (case find_spec t specs of None \<Rightarrow> None | Some i \<Rightarrow> Some (Suc i)))"

text \<open>
  The switch on the status after \<^verbatim>\<open>AddSamplesForMatch\<close> (lines 1084-1166): the accumulators
  of the specification at position \<open>i\<close> and of the global limits, or a sticky flag.
\<close>

definition PerSampleLimits_update_at ::
  "nat \<Rightarrow> (Limits \<Rightarrow> Limits) \<Rightarrow> Main \<Rightarrow> Main" where
  "PerSampleLimits_update_at i f st =
    st\<lparr>config := (config st)\<lparr>listofSpecs :=
          (listofSpecs (config st))
            [i := (listofSpecs (config st) ! i)
                    \<lparr>PerSampleLimits := f (PerSampleLimits (listofSpecs (config st) ! i))\<rparr>]\<rparr>\<rparr>"

definition account_sample :: "LimitStatus \<Rightarrow> HRESULT \<Rightarrow> DWORDLONG \<Rightarrow> nat \<Rightarrow> Main \<Rightarrow> Main" where
  "account_sample status hr dwlDataSize i st =
    (case status of
       NoLimits \<Rightarrow>
        (if hr = S_FALSE then st
         else (PerSampleLimits_update_at i
                 (\<lambda>l. l\<lparr>dwlAccumulatedBytesTotal := dwlAccumulatedBytesTotal l + dwlDataSize,
                        dwAccumulatedSampleCount := dwAccumulatedSampleCount l + 1\<rparr>) st)
               \<lparr>GlobalLimits := (GlobalLimits st)
                  \<lparr>dwlAccumulatedBytesTotal :=
                     dwlAccumulatedBytesTotal (GlobalLimits st) + dwlDataSize,
                   dwAccumulatedSampleCount :=
                     dwAccumulatedSampleCount (GlobalLimits st) + 1\<rparr>\<rparr>)
     | SampleWithinLimits \<Rightarrow>
        (if hr = S_FALSE then st
         else (PerSampleLimits_update_at i
                 (\<lambda>l. l\<lparr>dwlAccumulatedBytesTotal := dwlAccumulatedBytesTotal l + dwlDataSize,
                        dwAccumulatedSampleCount := dwAccumulatedSampleCount l + 1\<rparr>) st)
               \<lparr>GlobalLimits := (GlobalLimits st)
                  \<lparr>dwlAccumulatedBytesTotal :=
                     dwlAccumulatedBytesTotal (GlobalLimits st) + dwlDataSize,
                   dwAccumulatedSampleCount :=
                     dwAccumulatedSampleCount (GlobalLimits st) + 1\<rparr>\<rparr>)
     | GlobalSampleCountLimitReached \<Rightarrow>
         st\<lparr>GlobalLimits := (GlobalLimits st)\<lparr>bMaxSampleCountReached := True\<rparr>\<rparr>
     | GlobalMaxBytesPerSample \<Rightarrow>
         st\<lparr>GlobalLimits := (GlobalLimits st)\<lparr>bMaxBytesPerSampleReached := True\<rparr>\<rparr>
     | GlobalMaxBytesTotal \<Rightarrow>
         st\<lparr>GlobalLimits := (GlobalLimits st)\<lparr>bMaxBytesTotalReached := True\<rparr>\<rparr>
     | LocalSampleCountLimitReached \<Rightarrow>
         PerSampleLimits_update_at i (\<lambda>l. l\<lparr>bMaxSampleCountReached := True\<rparr>) st
     | LocalMaxBytesPerSample \<Rightarrow>
         PerSampleLimits_update_at i (\<lambda>l. l\<lparr>bMaxBytesPerSampleReached := True\<rparr>) st
     | LocalMaxBytesTotal \<Rightarrow>
         PerSampleLimits_update_at i (\<lambda>l. l\<lparr>bMaxBytesTotalReached := True\<rparr>) st
     | FailedToComputeLimits \<Rightarrow> st)"

text \<open>
  The loop of the callback over the attributes of the match (lines 1069-1167), for the
  specification at position \<open>i\<close> (the iterator \<^verbatim>\<open>aSpecIt\<close>). Each turn takes
  \<^verbatim>\<open>aMatch->MatchingNames.front()\<close> for the name it logs.
\<close>

fun match_attributes ::
  "Platform \<Rightarrow> Match \<Rightarrow> nat \<Rightarrow> AttributeMatch list \<Rightarrow> Main \<Rightarrow> fault + Main" where
  "match_attributes P aMatch i [] st = Inr st"
| "match_attributes P aMatch i (attr # rest) st =
    (if i < length (listofSpecs (config st)) \<and> MatchingNames aMatch \<noteq> []
     then
       (let aSpec = listofSpecs (config st) ! i;
            dwlDataSize = GetSize P (DataStream attr);
            status = SampleLimitStatus (GlobalLimits st) (PerSampleLimits aSpec) dwlDataSize
        in case AddSamplesForMatch P status aSpec aMatch st of
             Inl f \<Rightarrow> Inl f
           | Inr (hr, st') \<Rightarrow>
               match_attributes P aMatch i rest (account_sample status hr dwlDataSize i st'))
     else Inl UndefinedBehaviour)"

text \<open>The lambda \<^verbatim>\<open>onMatchCb\<close> (lines 1037-1168).\<close>

definition onMatchCb :: "Platform \<Rightarrow> Match \<Rightarrow> Main \<Rightarrow> fault + Main" where
  "onMatchCb P aMatch st =
    (if MatchingAttributes aMatch = [] then
       (case MatchingNames aMatch of [] \<Rightarrow> Inl UndefinedBehaviour | name # _ \<Rightarrow> Inr st)
     else
       (case find_spec (Term aMatch) (listofSpecs (config st)) of
          None \<Rightarrow> Inr st
        | Some i \<Rightarrow> match_attributes P aMatch i (MatchingAttributes aMatch) st))"

text \<open>
  \<^verbatim>\<open>Main::FindMatchingSamples\<close> (lines 1027-1177) on the matches the file finder reports, one
  call of the callback for each, in their order.
\<close>

fun FindMatchingSamples :: "Platform \<Rightarrow> Match list \<Rightarrow> Main \<Rightarrow> fault + Main" where
  "FindMatchingSamples P [] st = Inr st"
| "FindMatchingSamples P (aMatch # rest) st =
    (case onMatchCb P aMatch st of
       Inl f \<Rightarrow> Inl f
     | Inr st' \<Rightarrow> FindMatchingSamples P rest st')"

subsection \<open>The sample name as the specification words it\<close>

text \<open>
  The \<open>w\<close> hexadecimal digits of \<open>v\<close>, the most significant first: a fixed-width field.
\<close>

definition hex_fixed :: "nat \<Rightarrow> nat \<Rightarrow> wstring" where
  "hex_fixed w v = map (\<lambda>i. hex_digit (v div 16 ^ (w - Suc i) mod 16)) [0..<w]"

text \<open>
  The parts of a sample name (section 4.1): the content tag, a string as far as C reads
  it (to its first NUL), the three fixed-width fields of the parent-directory reference,
  each with twice as many digits as the field has bytes, and the four templates by index
  and data name.
\<close>

definition content_tag :: "ContentSpec \<Rightarrow> wstring" where
  "content_tag cspec =
    (if Type cspec = DATA then wide ''data''
     else if Type cspec = STRINGS then wide ''strings''
     else if Type cspec = RAW then wide ''raw''
     else [])"

definition c_str :: "wstring \<Rightarrow> wstring" where
  "c_str s = takeWhile (\<lambda>c. c \<noteq> 0) s"

definition parent_reference_hex :: "MFT_SEGMENT_REFERENCE \<Rightarrow> wstring" where
  "parent_reference_hex r =
    hex_fixed (2 * sizeof (SequenceNumber r)) (unat (SequenceNumber r))
    @ hex_fixed (2 * sizeof (SegmentNumberHighPart r)) (unat (SegmentNumberHighPart r))
    @ hex_fixed (2 * sizeof (SegmentNumberLowPart r)) (unat (SegmentNumberLowPart r))"

definition sample_name_text :: "ContentSpec \<Rightarrow> FILE_NAME \<Rightarrow> wstring \<Rightarrow> DWORD \<Rightarrow> wstring" where
  "sample_name_text cspec fn data_name idx =
    (let PPP = parent_reference_hex (ParentDirectory fn);
         NAME = c_str (take (unat (FileNameLength fn)) (FileName fn));
         DATA = c_str data_name;
         IDX = dec_of (unat idx);
         TAG = content_tag cspec
     in if idx = 0 \<and> data_name = [] then PPP @ wide ''_'' @ NAME @ wide ''_'' @ TAG
        else if idx = 0 then PPP @ wide ''__'' @ NAME @ wide ''_'' @ DATA @ wide ''_'' @ TAG
        else if data_name = [] then PPP @ wide ''__'' @ NAME @ wide ''_'' @ IDX @ wide ''_'' @ TAG
        else PPP @ wide ''_'' @ NAME @ wide ''_'' @ DATA @ wide ''_'' @ IDX @ wide ''_'' @ TAG)"

definition replace_reserved :: "(WCHAR \<Rightarrow> bool) \<Rightarrow> WCHAR \<Rightarrow> WCHAR" where
  "replace_reserved is_space c =
    (if is_space c \<or> c = wchar CHR '':'' \<or> c = wchar CHR ''#'' then wchar CHR ''_'' else c)"

subsection \<open>Concrete inputs\<close>

text \<open>The white space of the "C" locale: the blank and the characters 9 to 13.\<close>

definition iswspace_C :: "WCHAR \<Rightarrow> bool" where
  "iswspace_C c = (c = 0x20 \<or> (0x09 \<le> c \<and> c \<le> 0x0D))"

definition long_file_name :: FILE_NAME where
  "long_file_name =
    \<lparr>ParentDirectory = \<lparr>SegmentNumberLowPart = 5, SegmentNumberHighPart = 0, SequenceNumber = 1\<rparr>,
     Info = \<lparr>CreationTime = 0, LastModificationTime = 0, LastAccessTime = 0, LastChangeTime = 0\<rparr>,
     FileNameLength = 255,
     FileName = replicate 255 (wchar CHR ''a'')\<rparr>"

definition short_file_name :: FILE_NAME where
  "short_file_name =
    \<lparr>ParentDirectory = \<lparr>SegmentNumberLowPart = 0x2A, SegmentNumberHighPart = 0, SequenceNumber = 1\<rparr>,
     Info = \<lparr>CreationTime = 0, LastModificationTime = 0, LastAccessTime = 0, LastChangeTime = 0\<rparr>,
     FileNameLength = 7,
     FileName = wide ''a b.txt''\<rparr>"

definition data_content :: ContentSpec where
  "data_content = \<lparr>Type = DATA, MaxChars = 0, MinChars = 0\<rparr>"

subsection \<open>Notions for the statements about ingestion\<close>

text \<open>
  The key under which \<^verbatim>\<open>AddSamplesForMatch\<close> looks an attribute of a match up; the statuses
  that leave a sample within limits; the fields of a sample that the stream pipeline
  leaves alone; a sample as ingestion creates it.
\<close>

definition attribute_key :: "Match \<Rightarrow> AttributeMatch \<Rightarrow> SampleKey" where
  "attribute_key aMatch anAttr =
    (VolumeSerialNumber (VolumeReader aMatch), FRN_match aMatch, InstanceID_attr anAttr)"

definition within_limits :: "LimitStatus \<Rightarrow> bool" where
  "within_limits status = (status = NoLimits \<or> status = SampleWithinLimits)"

definition sample_core ::
  "SampleRef \<Rightarrow> Match list \<times> SampleKey \<times> GUID \<times> nat \<times> bool \<times> ContentSpec \<times> FILETIME \<times> wstring
     \<times> bytes \<times> bytes \<times> bytes \<times> bytes \<times> bytes" where
  "sample_core s =
    (Matches s, sample_key s, SnapshotID s, AttributeIndex s, OffLimits s, Content s,
     CollectionDate s, SampleName s, MD5 s, SHA1 s, SHA256 s, SSDeep s, TLSH s)"

definition fresh_sample :: "Config \<Rightarrow> LimitStatus \<Rightarrow> Match \<Rightarrow> nat \<Rightarrow> SampleRef \<Rightarrow> bool" where
  "fresh_sample cfg status aMatch sIndex s =
    (Matches s = [aMatch] \<and> AttributeIndex s = sIndex
     \<and> OffLimits s = (\<not> within_limits status)
     \<and> MD5 s = [] \<and> SHA1 s = [] \<and> SHA256 s = [] \<and> SSDeep s = [] \<and> TLSH s = []
     \<and> (if CryptoHashAlgs cfg = Undefined then HashStream s = None else True))"

text \<open>
  A platform on which every operation succeeds, a match of one name and two attributes,
  a specification without limits, and states of \<^verbatim>\<open>Main\<close> before and after ingestion.
\<close>

definition platform0 :: Platform where
  "platform0 =
    \<lparr>iswspace = iswspace_C,
     OpenForStrings = (\<lambda>stream minChars maxChars. S_OK),
     CryptoOpenToRead = (\<lambda>algs stream. S_OK),
     FuzzyOpenToRead = (\<lambda>algs stream. S_OK),
     GetSize = (\<lambda>stream. 11),
     GetMD5 = (\<lambda>reads stream. [1]),
     GetSHA1 = (\<lambda>reads stream. [2]),
     GetSHA256 = (\<lambda>reads stream. [3]),
     GetSSDeep = (\<lambda>reads stream. [4]),
     GetTLSH = (\<lambda>reads stream. [5]),
     GetMatchFullName = (\<lambda>m name attr. FullPathName name),
     path_append = (\<lambda>dir name. dir @ wide [CHR 0x5C] @ name),
     parent_path = (\<lambda>path. path),
     create_directories = (\<lambda>path. 0),
     WriteTo = (\<lambda>path. S_OK),
     CopyTo = (\<lambda>stream. S_OK),
     Close_file = (\<lambda>path. S_OK),
     Close_stream = (\<lambda>stream. S_OK),
     FlushOnAdd = (\<lambda>name. False)\<rparr>"

definition no_times :: FileTimes where
  "no_times = \<lparr>CreationTime = 0, LastModificationTime = 0, LastAccessTime = 0, LastChangeTime = 0\<rparr>"

definition name0 :: NameMatch where
  "name0 = \<lparr>FILENAME = Some short_file_name, FullPathName = wide ''C:/a b.txt''\<rparr>"

definition attr_a :: AttributeMatch where
  "attr_a = \<lparr>Type_attr = 0x80, AttrName = [], InstanceID_attr = 1,
             DataStream = AttributeStream 1, RawStream = AttributeStream 2, YaraRules = None\<rparr>"

definition attr_b :: AttributeMatch where
  "attr_b = \<lparr>Type_attr = 0x80, AttrName = wide ''ads'', InstanceID_attr = 2,
             DataStream = AttributeStream 3, RawStream = AttributeStream 4, YaraRules = None\<rparr>"

definition term0 :: Term where
  "term0 = \<lparr>TermId = 0, Description = wide ''rule''\<rparr>"

definition match_ab :: Match where
  "match_ab =
    \<lparr>FRN_match = \<lparr>SegmentNumberLowPart = 0x30, SegmentNumberHighPart = 0, SequenceNumber = 1\<rparr>,
     VolumeReader = \<lparr>VolumeSerialNumber = 0xABCD, GetSnapshotID = None\<rparr>,
     StandardInformation = no_times,
     MatchingNames = [name0],
     MatchingAttributes = [attr_a, attr_b],
     Term = term0\<rparr>"

definition no_limits :: Limits where
  "no_limits =
    \<lparr>bIgnoreLimits = False,
     dwlMaxBytesTotal = 0xFFFFFFFF, dwlAccumulatedBytesTotal = 0, bMaxBytesTotalReached = False,
     dwlMaxBytesPerSample = 0xFFFFFFFF, bMaxBytesPerSampleReached = False,
     dwMaxSampleCount = 0xFFFFFFFF, dwAccumulatedSampleCount = 0,
     bMaxSampleCountReached = False\<rparr>"

definition spec0 :: SampleSpec where
  "spec0 = \<lparr>Name = [], Terms = [term0], Content_spec = data_content,
            PerSampleLimits = no_limits\<rparr>"

definition config0 :: Config where
  "config0 = \<lparr>content = \<lparr>Type = STRINGS, MaxChars = 1024, MinChars = 3\<rparr>,
              CryptoHashAlgs = Undefined, FuzzyHashAlgs = 1, bReportAll = False,
              listofSpecs = [spec0]\<rparr>"

definition ignored_limits :: Limits where
  "ignored_limits = no_limits\<lparr>bIgnoreLimits := True, dwlMaxBytesPerSample := 10\<rparr>"

definition main0 :: Main where
  "main0 =
    \<lparr>config = config0, GlobalLimits = ignored_limits, Samples = Map.empty, SampleNames = {},
     CollectionDate_run = 0, ComputerName = wide ''HOST'', m_compressor = [],
     streams_read = {}, written = []\<rparr>"

definition sample_a :: SampleRef where
  "sample_a = SampleRef_default
    \<lparr>Matches := [match_ab], VolumeSerial := 0xABCD,
     FRN := \<lparr>SegmentNumberLowPart = 0x30, SegmentNumberHighPart = 0, SequenceNumber = 1\<rparr>,
     InstanceID := 1, AttributeIndex := 0, Content := data_content,
     SampleName := wide ''000100000000002A_a_b.txt_data'',
     FuzzyHashStream_ref := Some (FuzzyHashStream 1 (AttributeStream 1)),
     CopyStream := Some (FuzzyHashStream 1 (AttributeStream 1)), SampleSize := 11\<rparr>"

definition sample_b :: SampleRef where
  "sample_b = SampleRef_default
    \<lparr>Matches := [match_ab], VolumeSerial := 0xABCD,
     FRN := \<lparr>SegmentNumberLowPart = 0x30, SegmentNumberHighPart = 0, SequenceNumber = 1\<rparr>,
     InstanceID := 2, AttributeIndex := 1, Content := data_content,
     SampleName := wide ''000100000000002A__a_b.txt_ads_data'',
     FuzzyHashStream_ref := Some (FuzzyHashStream 1 (AttributeStream 3)),
     CopyStream := Some (FuzzyHashStream 1 (AttributeStream 3)), SampleSize := 11\<rparr>"

definition main_a :: Main where
  "main_a = main0\<lparr>Samples := [attribute_key match_ab attr_a \<mapsto> sample_a],
                   SampleNames := {wide ''000100000000002A_a_b.txt_data''}\<rparr>"

definition main_ab :: Main where
  "main_ab = main_a\<lparr>SampleNames := {wide ''000100000000002A__a_b.txt_ads_data'',
                                     wide ''000100000000002A_a_b.txt_data''},
                    Samples := [attribute_key match_ab attr_a \<mapsto> sample_a,
                                attribute_key match_ab attr_b \<mapsto> sample_b]\<rparr>"

definition one_match_each :: "Main \<Rightarrow> bool" where
  "one_match_each st = (\<forall>k s. Samples st k = Some s \<longrightarrow> length (Matches s) = 1)"

definition none_off_limits :: "Main \<Rightarrow> bool" where
  "none_off_limits st = (\<forall>k s. Samples st k = Some s \<longrightarrow> \<not> OffLimits s)"

definition main_run :: Main where
  "main_run = account_sample NoLimits S_OK 11 0 main_ab"

definition name_link :: NameMatch where
  "name_link = \<lparr>FILENAME = Some short_file_name, FullPathName = wide ''C:/link.txt''\<rparr>"

definition match_link :: Match where
  "match_link = match_ab\<lparr>MatchingNames := [name_link], MatchingAttributes := [attr_a]\<rparr>"

definition row_a :: "cell list" where
  "row_a =
    [WriteString (wide ''HOST''), WriteInteger 0xABCD, WriteInteger 0x100000000002A,
     WriteInteger 0x1000000000030, WriteString (wide ''C:/a b.txt''),
     WriteString (wide ''000100000000002A_a_b.txt_data''), WriteFileSize 11,
     WriteBytes [], WriteBytes [], WriteString (wide ''rule''), WriteString (wide ''data''),
     WriteFileTime 0, WriteFileTime 0, WriteFileTime 0, WriteFileTime 0, WriteFileTime 0,
     WriteFileTime 0, WriteFileTime 0, WriteFileTime 0, WriteFileTime 0,
     WriteExactFlags 0x80, WriteString [], WriteInteger 1, WriteGUID 0,
     WriteBytes [], WriteBytes [], WriteBytes [], WriteNothing]"

subsection \<open>Notions for the statements about streams and sinks\<close>

text \<open>
  The parameters of the strings extractor as the specification words them (section 4.3):
  the sample's own minimum and maximum, the global configuration's when both are zero.
\<close>

definition strings_parameters :: "Config \<Rightarrow> SampleRef \<Rightarrow> nat \<times> nat" where
  "strings_parameters cfg sampleRef =
    (if MinChars (Content sampleRef) = 0 \<and> MaxChars (Content sampleRef) = 0
     then (MinChars (content cfg), MaxChars (content cfg))
     else (MinChars (Content sampleRef), MaxChars (Content sampleRef)))"

text \<open>The stream under the hash readers of a chain: they only observe what they pass on.\<close>

fun source_stream :: "ByteStream \<Rightarrow> ByteStream" where
  "source_stream (CryptoHashStream algs upstream) = source_stream upstream"
| "source_stream (FuzzyHashStream algs upstream) = source_stream upstream"
| "source_stream stream = stream"


subsection \<open>Concrete inputs for streams and sinks\<close>

definition strings_sample :: SampleRef where
  "strings_sample = SampleRef_default
    \<lparr>Matches := [match_ab], AttributeIndex := 1,
     Content := \<lparr>Type = STRINGS, MaxChars = 0, MinChars = 0\<rparr>,
     SampleName := wide ''strings''\<rparr>"

definition strings_configured :: SampleRef where
  "strings_configured = strings_sample
    \<lparr>FuzzyHashStream_ref := Some (FuzzyHashStream 1 (StringsStream (AttributeStream 3) 3 1024)),
     CopyStream := Some (FuzzyHashStream 1 (StringsStream (AttributeStream 3) 3 1024)),
     SampleSize := 11\<rparr>"

definition sample_off :: SampleRef where
  "sample_off = sample_a\<lparr>OffLimits := True\<rparr>"

definition main_off :: Main where
  "main_off = main0\<lparr>Samples := [attribute_key match_ab attr_a \<mapsto> sample_off]\<rparr>"

definition row_b :: "cell list" where
  "row_b =
    [WriteString (wide ''HOST''), WriteInteger 0xABCD, WriteInteger 0x100000000002A,
     WriteInteger 0x1000000000030, WriteString (wide ''C:/a b.txt''),
     WriteString (wide ''000100000000002A__a_b.txt_ads_data''), WriteFileSize 11,
     WriteBytes [], WriteBytes [], WriteString (wide ''rule''), WriteString (wide ''data''),
     WriteFileTime 0, WriteFileTime 0, WriteFileTime 0, WriteFileTime 0, WriteFileTime 0,
     WriteFileTime 0, WriteFileTime 0, WriteFileTime 0, WriteFileTime 0,
     WriteExactFlags 0x80, WriteString (wide ''ads''), WriteInteger 2, WriteGUID 0,
     WriteBytes [], WriteBytes [], WriteBytes [], WriteNothing]"

subsection \<open>Notions for the statements about the name search\<close>

text \<open>
  The name \<^verbatim>\<open>AddSamplesForMatch\<close> tries at the index \<open>idx\<close>: the name of the specification and
  a backslash, when the specification has a name, before the sample name.
\<close>

definition candidate ::
  "Platform \<Rightarrow> SampleSpec \<Rightarrow> ContentSpec \<Rightarrow> FILE_NAME \<Rightarrow> wstring \<Rightarrow> DWORD \<Rightarrow> wstring" where
  "candidate P aSpec cspec fn data_name idx =
    (if Name aSpec \<noteq> [] then Name aSpec @ wide [CHR 0x5C] else [])
    @ map (replace_reserved (iswspace P)) (sample_name_text cspec fn data_name idx)"

text \<open>The value of a decimal numeral.\<close>

definition dec_value :: "wstring \<Rightarrow> nat" where
  "dec_value s = foldl (\<lambda>n c. 10 * n + (unat c - 48)) 0 s"

text \<open>A platform whose \<^verbatim>\<open>iswspace\<close> takes no decimal digit for white space.\<close>

definition digits_not_space :: "Platform \<Rightarrow> bool" where
  "digits_not_space P = list_all (\<lambda>d. \<not> iswspace P (of_nat (48 + d))) [0 ..< 10]"

text \<open>
  The names of a match fit the buffer of \<^verbatim>\<open>MAX_PATH\<close> characters with the attribute name
  \<open>data_name\<close> and any index: 37 characters go to the parent reference, the separators,
  the index and the content tag.
\<close>

definition names_fit :: "NameMatch list \<Rightarrow> wstring \<Rightarrow> bool" where
  "names_fit names data_name =
    list_all (\<lambda>name. case FILENAME name of
                        None \<Rightarrow> True
                      | Some fn \<Rightarrow> unat (FileNameLength fn) + length data_name < 223) names"

text \<open>
  The conditions under which the ingestion of a match returns: the names in use are
  finitely many and leave room in the range of the index for the names of the match, the
  match has a name, every name of the match fits the buffer with the name of every
  attribute, and the digits are not white space.
\<close>

definition ingestible :: "Platform \<Rightarrow> Match \<Rightarrow> Main \<Rightarrow> bool" where
  "ingestible P aMatch st =
    (digits_not_space P \<and> finite (SampleNames st)
     \<and> card (SampleNames st)
          + length (MatchingAttributes aMatch) * length (MatchingNames aMatch) < 2 ^ 32 - 1
     \<and> MatchingNames aMatch \<noteq> []
     \<and> list_all (\<lambda>anAttr. names_fit (MatchingNames aMatch) (AttrName anAttr))
          (MatchingAttributes aMatch))"

subsection \<open>Notions for the statements about a run\<close>


subsection \<open>Concrete inputs for a run under limits\<close>








subsection \<open>Notions for the statements about the archive sink\<close>


subsection \<open>Concrete inputs for the archive sink\<close>

text \<open>
  A configuration with the crypto hashes MD5, SHA1 and SHA256 and a fuzzy hash, and a
  platform on which a hash reader has a digest only once the copy stream above it has
  been read to its end.
\<close>

definition hashing_config :: Config where
  "hashing_config = config0\<lparr>CryptoHashAlgs := 7\<rparr>"

definition hashing_platform :: Platform where
  "hashing_platform = platform0
    \<lparr>GetMD5 := (\<lambda>reads stream. if FuzzyHashStream 1 stream \<in> reads then [0x4D] else []),
     GetSHA1 := (\<lambda>reads stream. if FuzzyHashStream 1 stream \<in> reads then [0x51] else []),
     GetSHA256 := (\<lambda>reads stream. if FuzzyHashStream 1 stream \<in> reads then [0x52] else []),
     GetSSDeep := (\<lambda>reads stream. if stream \<in> reads then [0x53] else []),
     GetTLSH := (\<lambda>reads stream. if stream \<in> reads then [0x54] else [])\<rparr>"

definition hashing_copy :: ByteStream where
  "hashing_copy = FuzzyHashStream 1 (CryptoHashStream 7 (AttributeStream 3))"

definition sample_named :: SampleRef where
  "sample_named = sample_b\<lparr>FuzzyHashStream_ref := None, CopyStream := None, SampleSize := 0\<rparr>"

definition sample_hashing :: SampleRef where
  "sample_hashing = sample_b
    \<lparr>HashStream := Some (CryptoHashStream 7 (AttributeStream 3)),
     FuzzyHashStream_ref := Some hashing_copy, CopyStream := Some hashing_copy\<rparr>"








section \<open>Limits: the evaluation order\<close>

text \<open>
  Where the sum of the data size and the accumulated bytes fits 64 bits, the machine
  comparison of \<^verbatim>\<open>SampleLimitStatus\<close> is the comparison of the numbers.
\<close>

lemma total_bytes_check_unat:
  fixes DataSize acc mx :: DWORDLONG
  assumes "unat DataSize + unat acc < 2 ^ 64"
  shows "(DataSize + acc > mx) = (unat DataSize + unat acc > unat mx)"
proof -
  have "unat (DataSize + acc) = unat DataSize + unat acc"
    using assms by (simp add: unat_word_ariths)
  then show ?thesis
    by (simp add: word_less_nat_alt)
qed

text \<open>
  C1. For every pair of Limits records (global, local) and every data size,
  \<^verbatim>\<open>SampleLimitStatus\<close> returns \<open>NoLimits\<close> when the global record has ignore-limits set,
  and otherwise the status of the first check that triggers, in the order global sample
  count (accumulated \<open>\<ge>\<close> max), local sample count, global bytes per sample (data size
  \<open>>\<close> max), global total bytes (data size + accumulated \<open>>\<close> max), local bytes per sample,
  local total bytes, a check being skipped when its maximum is the \<^verbatim>\<open>INFINITE\<close> sentinel,
  and \<open>SampleWithinLimits\<close> when no check triggers.
\<close>

theorem SampleLimitStatus_first_trigger_wins:
  "SampleLimitStatus global local data_size = evaluate_limits global local data_size"
  by (simp add: SampleLimitStatus_def evaluate_limits_def ordered_checks_def)

section \<open>Naming\<close>

lemma length_hex_fixed: "length (hex_fixed w v) = w"
  by (simp add: hex_fixed_def)

lemma hex_fixed_Suc: "hex_fixed (Suc w) v = hex_fixed w (v div 16) @ [hex_digit (v mod 16)]"
proof -
  have "\<And>i. i < w \<Longrightarrow> v div 16 ^ (w - i) = v div 16 div 16 ^ (w - Suc i)"
  proof -
    fix i assume "i < w"
    then have "w - i = Suc (w - Suc i)" by simp
    then show "v div 16 ^ (w - i) = v div 16 div 16 ^ (w - Suc i)"
      by (simp add: div_mult2_eq)
  qed
  then show ?thesis
    by (simp add: hex_fixed_def)
qed

lemma hex_digit_0: "hex_digit 0 = wchar CHR ''0''"
  by (simp add: hex_digit_def wchar_def)

lemma hex_fixed_0: "hex_fixed w 0 = replicate w (wchar CHR ''0'')"
  by (induction w) (simp_all add: hex_fixed_Suc hex_digit_0 replicate_append_same, simp add: hex_fixed_def)

lemma zero_padded_hex:
  "v < 16 ^ w \<Longrightarrow>
   replicate (w - length (if v = 0 \<and> w = 0 then [] else hex_of v)) (wchar CHR ''0'')
     @ (if v = 0 \<and> w = 0 then [] else hex_of v) = hex_fixed w v"
proof (induction w arbitrary: v)
  case 0
  then show ?case by (simp add: hex_fixed_def)
next
  case (Suc w)
  show ?case
  proof (cases "v < 16")
    case True
    then show ?thesis
      by (simp add: hex_of.simps [of v] hex_fixed_Suc hex_fixed_0)
  next
    case False
    then have nz: "v div 16 \<noteq> 0" by simp
    have "v div 16 < 16 ^ w" using Suc.prems by (simp add: less_mult_imp_div_less mult.commute)
    from Suc.IH [OF this] nz
    have "replicate (w - length (hex_of (v div 16))) (wchar CHR ''0'') @ hex_of (v div 16)
            = hex_fixed w (v div 16)" by simp
    then show ?thesis using False
      by (simp add: hex_of.simps [of v] hex_fixed_Suc)
  qed
qed

lemma fmt_X_fixed: "v < 16 ^ w \<Longrightarrow> fmt_X w w v = hex_fixed w v"
  using zero_padded_hex [of v w]
  by (simp add: fmt_X_def Let_def length_hex_fixed)

lemma ParentDirectory_XXX_fixed: "ParentDirectory_XXX r = parent_reference_hex r"
proof -
  have a: "unat (SequenceNumber r) < 16 ^ 4" using unsigned_less [of "SequenceNumber r"] by simp
  have b: "unat (SegmentNumberHighPart r) < 16 ^ 4"
    using unsigned_less [of "SegmentNumberHighPart r"] by simp
  have c: "unat (SegmentNumberLowPart r) < 16 ^ 8"
    using unsigned_less [of "SegmentNumberLowPart r"] by simp
  show ?thesis
    by (simp add: ParentDirectory_XXX_def parent_reference_hex_def sizeof_def
        fmt_X_fixed [OF a] fmt_X_fixed [OF b] fmt_X_fixed [OF c])
qed

lemma length_parent_reference_hex: "length (parent_reference_hex r) = 16"
  by (simp add: parent_reference_hex_def sizeof_def length_hex_fixed)

lemma CreateSampleFileName_formatted:
  "CreateSampleFileName is_space cspec (Some fn) DataName idx old =
    (if length (sample_name_text cspec fn DataName idx) < MAX_PATH
     then Inr (S_OK, map (replace_reserved is_space) (sample_name_text cspec fn DataName idx))
     else Inl CrtInvalidParameter)"
proof -
  have tag: "(case Type cspec of DATA \<Rightarrow> wide ''data'' | STRINGS \<Rightarrow> wide ''strings''
               | RAW \<Rightarrow> wide ''raw'' | _ \<Rightarrow> wide []) = content_tag cspec"
    by (cases "Type cspec") (simp_all add: content_tag_def wide_def)
  have rr: "(\<lambda>Item. if is_space Item \<or> Item = wchar CHR '':'' \<or> Item = wchar CHR ''#''
                     then wchar CHR ''_'' else Item) = replace_reserved is_space"
    by (rule ext) (simp add: replace_reserved_def)
  show ?thesis
    by (cases "idx = 0"; cases "DataName = []")
      (simp_all add: CreateSampleFileName_def sample_name_text_def swprintf_s_def fmt_u_def
        tag rr ParentDirectory_XXX_fixed Let_def fmt_s_def c_str_def)
qed

text \<open>
  C6, as amended. For every non-null file-name record whose formatted name has fewer than
  \<^verbatim>\<open>MAX_PATH\<close> (260) characters, so that it fits the buffer of \<^verbatim>\<open>swprintf_s\<close>, the name
  \<^verbatim>\<open>CreateSampleFileName\<close> assigns is: the three fixed-width hexadecimal fields of the
  parent-directory reference (sequence number, segment high part, segment low part, each
  with twice its byte width in digits), the file name cut at \<^verbatim>\<open>FileNameLength\<close> characters,
  the data name when it is not empty, the decimal index when it is not 0, and the content
  tag, joined by the template of the case; then every character that is white space, a
  colon or a hash is replaced by an underscore. (A string is read as C reads it, to its
  first NUL.)
\<close>

theorem CreateSampleFileName_templates:
  assumes "length (sample_name_text cspec fn DataName idx) < MAX_PATH"
  shows "CreateSampleFileName is_space cspec (Some fn) DataName idx old
           = Inr (S_OK, map (replace_reserved is_space) (sample_name_text cspec fn DataName idx))"
  using assms by (simp add: CreateSampleFileName_formatted)

lemma length_long: "length (sample_name_text data_content long_file_name [] 0) = 277"
  by (simp add: sample_name_text_def Let_def length_parent_reference_hex c_str_def
      long_file_name_def data_content_def content_tag_def wide_def wchar_def)

text \<open>
  C6 as stated fails for a file name of 255 characters, the longest NTFS allows: the
  formatted name has 277 characters, \<^verbatim>\<open>swprintf_s\<close> rejects it and no name is generated.
\<close>

theorem CreateSampleFileName_long_name_counterexample:
  "CreateSampleFileName iswspace_C data_content (Some long_file_name) [] 0 []
     = Inl CrtInvalidParameter"
  by (simp add: CreateSampleFileName_formatted length_long MAX_PATH_def)

lemma short_text: "sample_name_text data_content short_file_name [] 0 = wide ''000100000000002A_a b.txt_data''"
  by (simp add: sample_name_text_def Let_def parent_reference_hex_def sizeof_def hex_fixed_def
      hex_digit_def c_str_def short_file_name_def data_content_def content_tag_def wide_def wchar_def
      upt_rec [of _ "numeral n" for n] )

theorem CreateSampleFileName_templates_witness:
  "length (sample_name_text data_content short_file_name [] 0) < MAX_PATH
   \<and> CreateSampleFileName iswspace_C data_content (Some short_file_name) [] 0 []
       = Inr (S_OK, wide ''000100000000002A_a_b.txt_data'')"
  using CreateSampleFileName_templates [of data_content short_file_name "[]" 0 iswspace_C "[]"]
  by (simp add: short_text MAX_PATH_def wide_def wchar_def replace_reserved_def iswspace_C_def)

text \<open>
  C8. When the file-name record is absent (the pointer is null), \<^verbatim>\<open>CreateSampleFileName\<close>
  fails, with \<^verbatim>\<open>E_POINTER\<close>, the HRESULT of the code for the missing record (the error the
  specification lists under its kind InvalidArgument), and leaves the output parameter
  \<^verbatim>\<open>SampleFileName\<close> as it was: it assigns no name.
\<close>

theorem CreateSampleFileName_null_file_name:
  "CreateSampleFileName is_space cspec None DataName idx SampleFileName
     = Inr (E_POINTER, SampleFileName) \<and> FAILED E_POINTER"
  by (simp add: CreateSampleFileName_def E_POINTER_def FAILED_def)

section \<open>Ingestion\<close>

lemma FAILED_not_S_FALSE: "FAILED hr \<Longrightarrow> hr \<noteq> S_FALSE"
  by (auto simp: FAILED_def S_FALSE_def)

lemma not_FAILED_S_OK: "\<not> FAILED S_OK"
  by (simp add: FAILED_def S_OK_def)

lemma S_OK_not_S_FALSE: "S_OK \<noteq> S_FALSE"
  by (simp add: S_OK_def S_FALSE_def)

lemma E_INVALIDARG_not_S_FALSE: "E_INVALIDARG \<noteq> S_FALSE"
  by (simp add: E_INVALIDARG_def S_FALSE_def)

lemma base_stream_failure: "base_stream P cfg s attr = Inl hr \<Longrightarrow> hr \<noteq> S_FALSE"
  by (auto simp: base_stream_def Let_def FAILED_not_S_FALSE
      split: ContentType.splits if_splits)

lemma chain_crypto_failure:
  "chain_crypto P cfg stream s = Inl (hr, s') \<Longrightarrow> hr \<noteq> S_FALSE \<and> sample_core s' = sample_core s"
  by (auto simp: chain_crypto_def Let_def FAILED_not_S_FALSE sample_core_def sample_key_def
      split: if_splits)

lemma chain_crypto_core:
  "chain_crypto P cfg stream s = Inr (up, s') \<Longrightarrow> sample_core s' = sample_core s"
  by (auto simp: chain_crypto_def Let_def sample_core_def sample_key_def split: if_splits)

lemma chain_fuzzy_failure:
  "chain_fuzzy P cfg stream s = Inl (hr, s') \<Longrightarrow> hr \<noteq> S_FALSE \<and> sample_core s' = sample_core s"
  by (auto simp: chain_fuzzy_def Let_def FAILED_not_S_FALSE sample_core_def sample_key_def
      split: if_splits)

lemma chain_fuzzy_core:
  "chain_fuzzy P cfg stream s = Inr (up, s') \<Longrightarrow> sample_core s' = sample_core s"
  by (auto simp: chain_fuzzy_def Let_def sample_core_def sample_key_def split: if_splits)

lemma sample_core_streams [simp]:
  "sample_core (s\<lparr>CopyStream := c, SampleSize := z\<rparr>) = sample_core s"
  by (simp add: sample_core_def sample_key_def)

lemma ConfigureSampleStreams_result:
  assumes "ConfigureSampleStreams P cfg s = Inr (hr, s')"
  shows "hr \<noteq> S_FALSE \<and> sample_core s' = sample_core s"
proof (cases "SampleName s = []")
  case True
  with assms show ?thesis
    by (auto simp: ConfigureSampleStreams_def E_INVALIDARG_not_S_FALSE)
next
  case False
  with assms obtain attr where attr: "sample_attribute s = Some attr"
    by (auto simp: ConfigureSampleStreams_def split: option.splits)
  show ?thesis
  proof (cases "base_stream P cfg s attr")
    case (Inl e)
    with assms False attr show ?thesis
      by (auto simp: ConfigureSampleStreams_def dest: base_stream_failure)
  next
    case (Inr stream)
    show ?thesis
    proof (cases "chain_crypto P cfg stream s")
      case (Inl failed)
      with assms False attr Inr show ?thesis
        by (cases failed) (auto simp: ConfigureSampleStreams_def dest: chain_crypto_failure)
    next
      case crypto: (Inr ok)
      obtain up s1 where ok: "ok = (up, s1)" by (cases ok)
      have c1: "sample_core s1 = sample_core s"
        using crypto ok by (auto dest: chain_crypto_core)
      show ?thesis
      proof (cases "chain_fuzzy P cfg up s1")
        case (Inl failed)
        with assms False attr Inr crypto ok c1 show ?thesis
          by (cases failed) (auto simp: ConfigureSampleStreams_def dest: chain_fuzzy_failure)
      next
        case fuzzy: (Inr ok2)
        obtain up2 s2 where ok2: "ok2 = (up2, s2)" by (cases ok2)
        have "sample_core s2 = sample_core s1"
          using fuzzy ok2 by (auto dest: chain_fuzzy_core)
        with assms False attr Inr crypto ok c1 fuzzy ok2 show ?thesis
          by (auto simp: ConfigureSampleStreams_def S_OK_not_S_FALSE)
      qed
    qed
  qed
qed

lemma ConfigureSampleStreams_no_crypto:
  assumes "CryptoHashAlgs cfg = Undefined"
    and "ConfigureSampleStreams P cfg s = Inr (hr, s')"
  shows "HashStream s' = HashStream s"
proof -
  have crypto: "\<And>stream. chain_crypto P cfg stream s = Inr (stream, s)"
    using assms(1) by (simp add: chain_crypto_def)
  have fuzzy: "\<And>up r. chain_fuzzy P cfg up s = Inl r \<Longrightarrow> HashStream (snd r) = HashStream s"
    "\<And>up r. chain_fuzzy P cfg up s = Inr r \<Longrightarrow> HashStream (snd r) = HashStream s"
    by (auto simp: chain_fuzzy_def Let_def split: if_splits)
  from assms(2) show ?thesis
    by (auto simp: ConfigureSampleStreams_def crypto
        split: if_splits option.splits sum.splits prod.splits dest: fuzzy)
qed

lemma name_sample_result:
  "name_sample P aSpec anAttr date names used s = Inr (used', s') \<Longrightarrow>
     Matches s' = Matches s \<and> sample_key s' = sample_key s \<and> SnapshotID s' = SnapshotID s
     \<and> AttributeIndex s' = AttributeIndex s \<and> OffLimits s' = OffLimits s
     \<and> MD5 s' = MD5 s \<and> SHA1 s' = SHA1 s \<and> SHA256 s' = SHA256 s
     \<and> SSDeep s' = SSDeep s \<and> TLSH s' = TLSH s \<and> HashStream s' = HashStream s"
proof (induction names arbitrary: used s)
  case Nil
  then show ?case by simp
next
  case (Cons name rest)
  from Cons.prems obtain cab where
    rest: "name_sample P aSpec anAttr date rest (insert cab used)
             (s\<lparr>Content := Content_spec aSpec, CollectionDate := date, SampleName := cab\<rparr>)
           = Inr (used', s')"
    by (auto simp: Let_def split: sum.splits)
  from Cons.IH [OF rest] show ?case
    by (simp add: sample_key_def)
qed

lemma core_fields:
  "sample_core s' = sample_core s \<Longrightarrow>
     Matches s' = Matches s \<and> sample_key s' = sample_key s \<and> SnapshotID s' = SnapshotID s
     \<and> AttributeIndex s' = AttributeIndex s \<and> OffLimits s' = OffLimits s
     \<and> MD5 s' = MD5 s \<and> SHA1 s' = SHA1 s \<and> SHA256 s' = SHA256 s
     \<and> SSDeep s' = SSDeep s \<and> TLSH s' = TLSH s"
  by (simp add: sample_core_def)

lemma OffLimits_switch:
  "(case status of
      NoLimits \<Rightarrow> False
    | SampleWithinLimits \<Rightarrow> False
    | GlobalSampleCountLimitReached \<Rightarrow> True
    | GlobalMaxBytesPerSample \<Rightarrow> True
    | GlobalMaxBytesTotal \<Rightarrow> True
    | LocalSampleCountLimitReached \<Rightarrow> True
    | LocalMaxBytesPerSample \<Rightarrow> True
    | LocalMaxBytesTotal \<Rightarrow> True
    | FailedToComputeLimits \<Rightarrow> True) = (\<not> within_limits status)"
  by (cases status) (simp_all add: within_limits_def)

lemma add_attribute_duplicate:
  assumes "Samples st (attribute_key aMatch anAttr) = Some prev"
  shows "add_attribute P status aSpec aMatch anAttr sIndex st =
           (if MatchingNames aMatch = [] then Inl UndefinedBehaviour else Inr (S_FALSE, st))"
  using assms
  by (simp add: add_attribute_def Let_def sample_key_def attribute_key_def split: list.splits)

lemma add_attribute_new:
  assumes new: "Samples st (attribute_key aMatch anAttr) = None"
    and ret: "add_attribute P status aSpec aMatch anAttr sIndex st = Inr (hr, st')"
  shows "hr \<noteq> S_FALSE \<and>
         (\<exists>s used. fresh_sample (config st) status aMatch sIndex s
            \<and> st' = st\<lparr>SampleNames := used,
                        Samples := (Samples st)(attribute_key aMatch anAttr \<mapsto> s)\<rparr>)"
proof -
  define s0 where "s0 = SampleRef_default
           \<lparr>Matches := [aMatch],
            VolumeSerial := VolumeSerialNumber (VolumeReader aMatch),
            SnapshotID :=
              (case GetSnapshotID (VolumeReader aMatch) of
                 Some snapshot \<Rightarrow> snapshot
               | None \<Rightarrow> GUID_NULL),
            FRN := FRN_match aMatch,
            InstanceID := InstanceID_attr anAttr,
            AttributeIndex := sIndex,
            OffLimits := (\<not> within_limits status)\<rparr>"
  have key0: "sample_key s0 = attribute_key aMatch anAttr"
    by (simp add: s0_def sample_key_def attribute_key_def)
  have fresh0: "fresh_sample (config st) status aMatch sIndex s0"
    by (simp add: s0_def fresh_sample_def SampleRef_default_def)
  have hash0: "HashStream s0 = None"
    by (simp add: s0_def SampleRef_default_def)
  from ret new obtain used named configured where
    named: "name_sample P aSpec anAttr (CollectionDate_run st) (MatchingNames aMatch)
              (SampleNames st) s0 = Inr (used, named)"
    and conf: "ConfigureSampleStreams P (config st) named = Inr (hr, configured)"
    and st': "st' = st\<lparr>SampleNames := used,
                       Samples := (Samples st)(sample_key configured \<mapsto> configured)\<rparr>"
    unfolding add_attribute_def OffLimits_switch Let_def s0_def [symmetric]
    by (auto simp: key0 split: sum.splits)
  note n = name_sample_result [OF named]
  note c = ConfigureSampleStreams_result [OF conf]
  note cf = core_fields [OF c [THEN conjunct2]]
  have "sample_key configured = attribute_key aMatch anAttr"
    using n cf key0 by simp
  moreover have "fresh_sample (config st) status aMatch sIndex configured"
    using n cf fresh0 hash0 ConfigureSampleStreams_no_crypto [OF _ conf]
    by (simp add: fresh_sample_def)
  ultimately show ?thesis
    using c st' by auto
qed

lemma add_attributes_hr:
  assumes "add_attributes P status aSpec aMatch attrs sIndex hr0 st = Inr (hr, st')"
  shows "dom (Samples st') = dom (Samples st) \<union> attribute_key aMatch ` set attrs
       \<and> (if attrs = [] then hr = hr0
          else (hr = S_FALSE) =
                 (attribute_key aMatch (last attrs)
                    \<in> dom (Samples st) \<union> attribute_key aMatch ` set (butlast attrs)))"
  using assms
proof (induction attrs arbitrary: sIndex hr0 st)
  case Nil
  then show ?case by simp
next
  case (Cons a rest)
  from Cons.prems obtain hr1 st1 where
    step: "add_attribute P status aSpec aMatch a sIndex st = Inr (hr1, st1)"
    and tail: "add_attributes P status aSpec aMatch rest (Suc sIndex) hr1 st1 = Inr (hr, st')"
    by (auto split: sum.splits)
  note IH = Cons.IH [OF tail]
  show ?case
  proof (cases "Samples st (attribute_key aMatch a)")
    case (Some prev)
    from step add_attribute_duplicate [OF Some, of P status aSpec sIndex]
    have s1: "hr1 = S_FALSE" "st1 = st"
      by (auto split: if_splits)
    have inD: "attribute_key aMatch a \<in> dom (Samples st)" using Some by auto
    show ?thesis
    proof (cases "rest = []")
      case True
      with IH s1 inD show ?thesis by auto
    next
      case False
      with IH s1 inD show ?thesis by auto
    qed
  next
    case None
    from add_attribute_new [OF None step] obtain s used where
      hr1: "hr1 \<noteq> S_FALSE"
      and st1: "st1 = st\<lparr>SampleNames := used,
                         Samples := (Samples st)(attribute_key aMatch a \<mapsto> s)\<rparr>"
      by auto
    have notD: "attribute_key aMatch a \<notin> dom (Samples st)" using None by auto
    have d1: "dom (Samples st1) = insert (attribute_key aMatch a) (dom (Samples st))"
      using st1 by simp
    show ?thesis
    proof (cases "rest = []")
      case True
      with IH hr1 notD d1 show ?thesis by auto
    next
      case False
      with IH hr1 notD d1 show ?thesis by auto
    qed
  qed
qed

lemma add_attributes_registry:
  assumes "add_attributes P status aSpec aMatch attrs sIndex hr0 st = Inr (hr, st')"
  shows "config st' = config st \<and> GlobalLimits st' = GlobalLimits st
       \<and> m_compressor st' = m_compressor st \<and> written st' = written st
       \<and> streams_read st' = streams_read st
       \<and> (\<forall>k s. Samples st k = Some s \<longrightarrow> Samples st' k = Some s)
       \<and> (\<forall>k s. Samples st k = None \<longrightarrow> Samples st' k = Some s
             \<longrightarrow> (\<exists>i. fresh_sample (config st) status aMatch i s))"
  using assms
proof (induction attrs arbitrary: sIndex hr0 st)
  case Nil
  then show ?case by simp
next
  case (Cons a rest)
  from Cons.prems obtain hr1 st1 where
    step: "add_attribute P status aSpec aMatch a sIndex st = Inr (hr1, st1)"
    and tail: "add_attributes P status aSpec aMatch rest (Suc sIndex) hr1 st1 = Inr (hr, st')"
    by (auto split: sum.splits)
  note IH = Cons.IH [OF tail]
  show ?case
  proof (cases "Samples st (attribute_key aMatch a)")
    case (Some prev)
    from step add_attribute_duplicate [OF Some, of P status aSpec sIndex]
    have "st1 = st" by (auto split: if_splits)
    with IH show ?thesis by simp
  next
    case None
    from add_attribute_new [OF None step] obtain s used where
      fresh: "fresh_sample (config st) status aMatch sIndex s"
      and st1: "st1 = st\<lparr>SampleNames := used,
                         Samples := (Samples st)(attribute_key aMatch a \<mapsto> s)\<rparr>"
      by auto
    have old: "\<And>k s0. Samples st k = Some s0 \<Longrightarrow> Samples st1 k = Some s0"
      using st1 None by auto
    have new: "\<And>k s0. Samples st k = None \<Longrightarrow> Samples st1 k = Some s0 \<Longrightarrow> s0 = s"
      using st1 by (auto split: if_splits)
    have cfg: "config st1 = config st"
      using st1 by simp
    show ?thesis
    proof (intro conjI allI impI)
      fix k s0 assume "Samples st k = Some s0"
      then show "Samples st' k = Some s0" using old IH by blast
    next
      fix k s0 assume a: "Samples st k = None" "Samples st' k = Some s0"
      show "\<exists>i. fresh_sample (config st) status aMatch i s0"
      proof (cases "Samples st1 k")
        case None
        with IH a have "\<exists>i. fresh_sample (config st1) status aMatch i s0" by blast
        then show ?thesis by (simp add: cfg)
      next
        case (Some s1)
        with new a have "s1 = s" by blast
        moreover have "s0 = s1"
        proof -
          from IH Some have "Samples st' k = Some s1" by blast
          with a show ?thesis by simp
        qed
        ultimately show ?thesis using fresh by blast
      qed
    qed (use IH st1 in auto)
  qed
qed

lemma text_b: "sample_name_text data_content short_file_name (wide ''ads'') 0
                 = wide ''000100000000002A__a b.txt_ads_data''"
  by (simp add: sample_name_text_def Let_def parent_reference_hex_def sizeof_def hex_fixed_def
      hex_digit_def c_str_def short_file_name_def data_content_def content_tag_def wide_def wchar_def
      upt_rec [of _ "numeral n" for n] )

lemma name_b: "CreateSampleFileName iswspace_C data_content (Some short_file_name) (wide ''ads'') 0 []
    = Inr (S_OK, wide ''000100000000002A__a_b.txt_ads_data'')"
  by (simp add: CreateSampleFileName_formatted text_b MAX_PATH_def)
     (simp add: wide_def wchar_def replace_reserved_def iswspace_C_def)

lemma unused_b:
  "unused_sample_name platform0 {wide ''000100000000002A_a_b.txt_data''}
     \<lparr>Name = [], Terms = ts, Content_spec = c, PerSampleLimits = l\<rparr>
     \<lparr>Type = DATA, MaxChars = 0, MinChars = 0\<rparr>
     (Some short_file_name) (wide ''ads'') 0 [] = Inr (wide ''000100000000002A__a_b.txt_ads_data'')"
  apply (subst unused_sample_name.simps)
  apply (simp add: platform0_def name_b [unfolded data_content_def] not_FAILED_S_OK)
  apply (simp add: wide_def wchar_def)
  done

lemma second_b: "add_attribute platform0 NoLimits spec0 match_ab attr_b (Suc 0) main_a
    = Inr (S_OK, main_a\<lparr>SampleNames := {wide ''000100000000002A__a_b.txt_ads_data'',
                                          wide ''000100000000002A_a_b.txt_data''},
                         Samples := [attribute_key match_ab attr_a \<mapsto> sample_a,
                                     attribute_key match_ab attr_b \<mapsto> sample_b]\<rparr>)"
  apply (simp add: add_attribute_def Let_def)
  apply (simp add: main_a_def main0_def attribute_key_def sample_key_def match_ab_def attr_a_def
      attr_b_def SampleRef_default_def name0_def spec0_def data_content_def
      unused_b [unfolded short_file_name_def] short_file_name_def)
  apply (simp add: ConfigureSampleStreams_def sample_attribute_def base_stream_def
      chain_crypto_def chain_fuzzy_def config0_def Undefined_def Let_def
      platform0_def not_FAILED_S_OK sample_b_def SampleRef_default_def sample_key_def
      match_ab_def attr_a_def attr_b_def name0_def short_file_name_def data_content_def
      GUID_NULL_def)
  apply (simp add: wide_def wchar_def main_a_def main0_def attribute_key_def match_ab_def
      attr_a_def attr_b_def name0_def short_file_name_def config0_def Undefined_def)
  done

lemma ingest_ab:
  "AddSamplesForMatch platform0 NoLimits spec0 match_ab main_a = Inr (S_OK, main_ab)"
proof -
  have ka: "Samples main_a (attribute_key match_ab attr_a) = Some sample_a"
    by (simp add: main_a_def)
  have names: "MatchingNames match_ab = [name0]" by (simp add: match_ab_def)
  have first: "add_attribute platform0 NoLimits spec0 match_ab attr_a 0 main_a = Inr (S_FALSE, main_a)"
    using add_attribute_duplicate [OF ka, of platform0 NoLimits spec0 0] names by simp
  have attrs: "MatchingAttributes match_ab = [attr_a, attr_b]" by (simp add: match_ab_def)
  show ?thesis
    by (simp add: AddSamplesForMatch_def attrs first second_b S_OK_not_S_FALSE main_ab_def)
qed

lemma keys_ab: "attribute_key match_ab attr_a \<noteq> attribute_key match_ab attr_b"
  by (simp add: attribute_key_def attr_a_def attr_b_def)

text \<open>
  C3 as stated fails where a duplicate attribute is followed by a new one: the first
  attribute of the match is in the registry, and the call returns \<^verbatim>\<open>S_OK\<close>.
\<close>

theorem AddSamplesForMatch_earlier_duplicate_counterexample:
  "MatchingAttributes match_ab = [attr_a, attr_b]
   \<and> Samples main_a (attribute_key match_ab attr_a) = Some sample_a
   \<and> AddSamplesForMatch platform0 NoLimits spec0 match_ab main_a = Inr (S_OK, main_ab)
   \<and> S_OK \<noteq> S_FALSE"
  by (simp add: ingest_ab S_OK_not_S_FALSE) (simp add: match_ab_def main_a_def)

lemma AddSamplesForMatch_registry:
  assumes "AddSamplesForMatch P status aSpec aMatch st = Inr (hr, st')"
  shows "config st' = config st \<and> GlobalLimits st' = GlobalLimits st
       \<and> m_compressor st' = m_compressor st \<and> written st' = written st
       \<and> streams_read st' = streams_read st
       \<and> (\<forall>k s. Samples st k = Some s \<longrightarrow> Samples st' k = Some s)
       \<and> (\<forall>k s. Samples st k = None \<longrightarrow> Samples st' k = Some s
             \<longrightarrow> (\<exists>i. fresh_sample (config st) status aMatch i s))"
proof -
  from assms obtain hr1 where
    "add_attributes P status aSpec aMatch (MatchingAttributes aMatch) 0 E_FAIL st
       = Inr (hr1, st')"
    by (auto simp: AddSamplesForMatch_def split: sum.splits)
  then show ?thesis by (rule add_attributes_registry)
qed

lemma add_attributes_all_duplicates:
  assumes "\<forall>a \<in> set attrs. Samples st (attribute_key aMatch a) \<noteq> None"
    and "MatchingNames aMatch \<noteq> []"
  shows "add_attributes P status aSpec aMatch attrs sIndex hr0 st
           = Inr (if attrs = [] then hr0 else S_FALSE, st)"
  using assms
proof (induction attrs arbitrary: sIndex hr0)
  case Nil
  then show ?case by simp
next
  case (Cons a rest)
  from Cons.prems obtain prev where "Samples st (attribute_key aMatch a) = Some prev"
    by auto
  from add_attribute_duplicate [OF this, of P status aSpec sIndex] Cons.prems
  have "add_attribute P status aSpec aMatch a sIndex st = Inr (S_FALSE, st)"
    by simp
  with Cons show ?case by simp
qed

lemma AddSamplesForMatch_all_duplicates:
  assumes "\<forall>a \<in> set (MatchingAttributes aMatch). Samples st (attribute_key aMatch a) \<noteq> None"
    and "MatchingNames aMatch \<noteq> []" and "MatchingAttributes aMatch \<noteq> []"
  shows "AddSamplesForMatch P status aSpec aMatch st = Inr (S_FALSE, st)"
  using add_attributes_all_duplicates [OF assms(1,2), of P status aSpec 0 E_FAIL] assms(3)
  by (simp add: AddSamplesForMatch_def)

lemma length_csv_rows:
  "csv_rows computer s pairs = Inr rows \<Longrightarrow> length rows = length pairs"
proof (induction pairs arbitrary: rows)
  case Nil
  then show ?case by simp
next
  case (Cons p rest)
  obtain m n where p: "p = (m, n)" by (cases p)
  from Cons.prems p obtain row rows' where
    "csv_rows computer s rest = Inr rows'" "rows = row # rows'"
    by (auto split: sum.splits)
  with Cons.IH show ?case by simp
qed

lemma account_sample_keeps:
  "Samples (account_sample status hr dsize i st) = Samples st
   \<and> bIgnoreLimits (GlobalLimits (account_sample status hr dsize i st))
       = bIgnoreLimits (GlobalLimits st)
   \<and> length (listofSpecs (config (account_sample status hr dsize i st)))
       = length (listofSpecs (config st))"
  by (cases status) (simp_all add: account_sample_def PerSampleLimits_update_at_def)

lemma SampleLimitStatus_ignore:
  "bIgnoreLimits g \<Longrightarrow> SampleLimitStatus g l dsize = NoLimits"
  by (simp add: SampleLimitStatus_def)

lemma AddSamplesForMatch_one_match_each:
  assumes "AddSamplesForMatch P status aSpec aMatch st = Inr (hr, st')"
    and "one_match_each st"
  shows "one_match_each st'"
  unfolding one_match_each_def
proof (intro allI impI)
  fix k s assume s: "Samples st' k = Some s"
  note reg = AddSamplesForMatch_registry [OF assms(1)]
  show "length (Matches s) = 1"
  proof (cases "Samples st k")
    case None
    with reg s obtain i where "fresh_sample (config st) status aMatch i s" by blast
    then show ?thesis by (simp add: fresh_sample_def)
  next
    case (Some s0)
    with reg have "Samples st' k = Some s0" by blast
    with s have "s0 = s" by simp
    moreover from Some assms(2) have "length (Matches s0) = 1"
      unfolding one_match_each_def by blast
    ultimately show ?thesis by simp
  qed
qed

lemma AddSamplesForMatch_none_off_limits:
  assumes "AddSamplesForMatch P NoLimits aSpec aMatch st = Inr (hr, st')"
    and "none_off_limits st"
  shows "none_off_limits st'"
  unfolding none_off_limits_def
proof (intro allI impI)
  fix k s assume s: "Samples st' k = Some s"
  note reg = AddSamplesForMatch_registry [OF assms(1)]
  show "\<not> OffLimits s"
  proof (cases "Samples st k")
    case None
    with reg s obtain i where "fresh_sample (config st) NoLimits aMatch i s" by blast
    then show ?thesis by (simp add: fresh_sample_def within_limits_def)
  next
    case (Some s0)
    with reg have "Samples st' k = Some s0" by blast
    with s have "s0 = s" by simp
    moreover from Some assms(2) have "\<not> OffLimits s0"
      unfolding none_off_limits_def by blast
    ultimately show ?thesis by simp
  qed
qed

lemma match_attributes_invariants:
  assumes "match_attributes P aMatch i attrs st = Inr st'"
  shows "(one_match_each st \<longrightarrow> one_match_each st')
       \<and> (bIgnoreLimits (GlobalLimits st) \<longrightarrow> none_off_limits st
            \<longrightarrow> bIgnoreLimits (GlobalLimits st') \<and> none_off_limits st')"
  using assms
proof (induction attrs arbitrary: st)
  case Nil
  then show ?case by simp
next
  case (Cons attr rest)
  define aSpec where "aSpec = listofSpecs (config st) ! i"
  define dsize where "dsize = GetSize P (DataStream attr)"
  define status where "status = SampleLimitStatus (GlobalLimits st) (PerSampleLimits aSpec) dsize"
  from Cons.prems obtain hr st1 where
    add: "AddSamplesForMatch P status aSpec aMatch st = Inr (hr, st1)"
    and rest: "match_attributes P aMatch i rest (account_sample status hr dsize i st1) = Inr st'"
    by (auto simp: Let_def aSpec_def dsize_def status_def split: if_splits sum.splits)
  note IH = Cons.IH [OF rest]
  note keep = account_sample_keeps [of status hr dsize i st1]
  note reg = AddSamplesForMatch_registry [OF add]
  have one: "one_match_each st \<Longrightarrow> one_match_each (account_sample status hr dsize i st1)"
    using AddSamplesForMatch_one_match_each [OF add] keep
    by (simp add: one_match_each_def)
  have ign: "bIgnoreLimits (GlobalLimits st) \<Longrightarrow> none_off_limits st
      \<Longrightarrow> bIgnoreLimits (GlobalLimits (account_sample status hr dsize i st1))
        \<and> none_off_limits (account_sample status hr dsize i st1)"
  proof -
    assume g: "bIgnoreLimits (GlobalLimits st)" and n: "none_off_limits st"
    from g have "status = NoLimits" by (simp add: status_def SampleLimitStatus_ignore)
    with add n have "none_off_limits st1"
      using AddSamplesForMatch_none_off_limits by blast
    with keep reg g show ?thesis by (simp add: none_off_limits_def)
  qed
  from IH one ign show ?case by blast
qed

lemma onMatchCb_invariants:
  assumes "onMatchCb P aMatch st = Inr st'"
  shows "(one_match_each st \<longrightarrow> one_match_each st')
       \<and> (bIgnoreLimits (GlobalLimits st) \<longrightarrow> none_off_limits st
            \<longrightarrow> bIgnoreLimits (GlobalLimits st') \<and> none_off_limits st')"
proof (cases "MatchingAttributes aMatch = []")
  case True
  with assms have "st' = st" by (auto simp: onMatchCb_def split: list.splits)
  then show ?thesis by simp
next
  case False
  show ?thesis
  proof (cases "find_spec (Term aMatch) (listofSpecs (config st))")
    case None
    with assms False have "st' = st" by (simp add: onMatchCb_def)
    then show ?thesis by simp
  next
    case (Some i)
    with assms False
    have "match_attributes P aMatch i (MatchingAttributes aMatch) st = Inr st'"
      by (simp add: onMatchCb_def)
    then show ?thesis by (rule match_attributes_invariants)
  qed
qed

lemma FindMatchingSamples_invariants:
  assumes "FindMatchingSamples P ms st = Inr st'"
  shows "(one_match_each st \<longrightarrow> one_match_each st')
       \<and> (bIgnoreLimits (GlobalLimits st) \<longrightarrow> none_off_limits st
            \<longrightarrow> bIgnoreLimits (GlobalLimits st') \<and> none_off_limits st')"
  using assms
proof (induction ms arbitrary: st)
  case Nil
  then show ?case by simp
next
  case (Cons m rest)
  from Cons.prems obtain st1 where
    cb: "onMatchCb P m st = Inr st1" and tail: "FindMatchingSamples P rest st1 = Inr st'"
    by (auto split: sum.splits)
  from onMatchCb_invariants [OF cb] Cons.IH [OF tail] show ?case by blast
qed

lemma run_ab: "FindMatchingSamples platform0 [match_ab] main_a = Inr main_run"
proof -
  have attrs: "MatchingAttributes match_ab = [attr_a, attr_b]"
    and names: "MatchingNames match_ab \<noteq> []"
    by (simp_all add: match_ab_def)
  have spec: "find_spec (Term match_ab) (listofSpecs (config main_a)) = Some 0"
    by (simp add: match_ab_def main_a_def main0_def config0_def spec0_def)
  have specs: "listofSpecs (config main_a) = [spec0]"
    by (simp add: main_a_def main0_def config0_def)
  have ign: "bIgnoreLimits (GlobalLimits main_a)"
    by (simp add: main_a_def main0_def ignored_limits_def)
  have size_a: "GetSize platform0 (DataStream attr_a) = 11"
    by (simp add: platform0_def)
  have first: "match_attributes platform0 match_ab 0 [attr_a, attr_b] main_a
                 = match_attributes platform0 match_ab 0 [attr_b] main_run"
    using names
    by (simp add: specs size_a SampleLimitStatus_ignore [OF ign] ingest_ab main_run_def)
  have reg: "Samples main_run = Samples main_ab"
    and ign2: "bIgnoreLimits (GlobalLimits main_run)"
    and len2: "length (listofSpecs (config main_run)) = 1"
    using account_sample_keeps [of NoLimits S_OK 11 0 main_ab]
      AddSamplesForMatch_registry [OF ingest_ab] ign specs
    by (simp_all add: main_run_def)
  have dups: "\<forall>a \<in> set (MatchingAttributes match_ab).
                Samples main_run (attribute_key match_ab a) \<noteq> None"
    using keys_ab by (simp add: attrs reg main_ab_def)
  have again: "\<And>aSpec. AddSamplesForMatch platform0 NoLimits aSpec match_ab main_run
                 = Inr (S_FALSE, main_run)"
    using AddSamplesForMatch_all_duplicates [OF dups names] attrs by simp
  have second: "match_attributes platform0 match_ab 0 [attr_b] main_run = Inr main_run"
    using names
    by (simp add: len2 SampleLimitStatus_ignore [OF ign2] again account_sample_def)
  show ?thesis
    by (simp add: onMatchCb_def attrs spec first second del: match_attributes.simps)
qed

lemma ingest_link:
  "AddSamplesForMatch platform0 NoLimits spec0 match_link main_ab = Inr (S_FALSE, main_ab)"
proof -
  have "attribute_key match_link attr_a = attribute_key match_ab attr_a"
    by (simp add: match_link_def attribute_key_def)
  then have "\<forall>a \<in> set (MatchingAttributes match_link).
          Samples main_ab (attribute_key match_link a) \<noteq> None"
    using keys_ab by (simp add: match_link_def main_ab_def)
  then show ?thesis
    by (rule AddSamplesForMatch_all_duplicates) (simp_all add: match_link_def)
qed

lemma rows_a: "AddSampleRefToCSV (wide ''HOST'') sample_a = Inr (S_OK, [row_a])"
  apply (simp add: AddSampleRefToCSV_def sample_a_def SampleRef_default_def match_ab_def
      name0_def csv_row_def short_file_name_def attr_a_def attr_b_def QuadPart_def
      data_content_def term0_def no_times_def GUID_NULL_def row_a_def)
  done

lemma one_match_each_main_a: "one_match_each main_a"
  by (simp add: one_match_each_def main_a_def sample_a_def)


text \<open>
  C9. Every sample in the registry holds exactly one match: a run of
  \<^verbatim>\<open>FindMatchingSamples\<close> keeps this, and an ingestion leaves every sample that was in the
  registry, among them the one a duplicate key finds, as it was, its match list included.
  The rows of a sample with the one match \<open>m\<close> are the rows of the names of \<open>m\<close>, one for
  each, so the names of a later duplicate match give no row for it.
\<close>

theorem registry_sample_holds_one_match:
  "(FindMatchingSamples P ms st0 = Inr st1 \<longrightarrow> one_match_each st0 \<longrightarrow> one_match_each st1)
   \<and> (AddSamplesForMatch P status aSpec aMatch st = Inr (hr, st') \<longrightarrow>
        Samples st k = Some s \<longrightarrow> Samples st' k = Some s)
   \<and> (Matches sample = [m] \<longrightarrow>
        AddSampleRefToCSV computer sample
          = (case csv_rows computer sample (map (Pair m) (MatchingNames m)) of
               Inl f \<Rightarrow> Inl f
             | Inr rows \<Rightarrow> Inr (S_OK, rows)))
   \<and> (Matches sample = [m] \<longrightarrow> AddSampleRefToCSV computer sample = Inr (hr', rows) \<longrightarrow>
        length rows = length (MatchingNames m))"
proof (intro conjI impI)
  assume "FindMatchingSamples P ms st0 = Inr st1" "one_match_each st0"
  with FindMatchingSamples_invariants show "one_match_each st1" by blast
next
  assume add: "AddSamplesForMatch P status aSpec aMatch st = Inr (hr, st')"
    and "Samples st k = Some s"
  with AddSamplesForMatch_registry [OF add] show "Samples st' k = Some s" by blast
next
  assume "Matches sample = [m]"
  then show "AddSampleRefToCSV computer sample
          = (case csv_rows computer sample (map (Pair m) (MatchingNames m)) of
               Inl f \<Rightarrow> Inl f
             | Inr rows \<Rightarrow> Inr (S_OK, rows))"
    by (simp add: AddSampleRefToCSV_def)
next
  assume m: "Matches sample = [m]"
    and "AddSampleRefToCSV computer sample = Inr (hr', rows)"
  then have "csv_rows computer sample (map (Pair m) (MatchingNames m)) = Inr rows"
    by (auto simp: AddSampleRefToCSV_def split: sum.splits)
  from length_csv_rows [OF this] show "length rows = length (MatchingNames m)" by simp
qed

theorem registry_sample_holds_one_match_witness:
  "FindMatchingSamples platform0 [match_ab] main_a = Inr main_run
   \<and> one_match_each main_a \<and> one_match_each main_run
   \<and> AddSamplesForMatch platform0 NoLimits spec0 match_link main_ab = Inr (S_FALSE, main_ab)
   \<and> MatchingNames match_link = [name_link]
   \<and> Samples main_ab (attribute_key match_link attr_a) = Some sample_a
   \<and> Matches sample_a = [match_ab]
   \<and> AddSampleRefToCSV (wide ''HOST'') sample_a = Inr (S_OK, [row_a])
   \<and> length [row_a] = length (MatchingNames match_ab)"
proof -
  have ka: "Samples main_ab (attribute_key match_link attr_a) = Some sample_a"
    using keys_ab by (simp add: main_ab_def match_link_def attribute_key_def)
  have ma: "Matches sample_a = [match_ab]"
    by (simp add: sample_a_def)
  note inst = registry_sample_holds_one_match
    [where P = platform0 and ms = "[match_ab]" and ?st0.0 = main_a and ?st1.0 = main_run
       and status = NoLimits and aSpec = spec0 and aMatch = match_link and st = main_ab
       and hr = S_FALSE and st' = main_ab and k = "attribute_key match_link attr_a"
       and s = sample_a and sample = sample_a and m = match_ab
       and computer = "wide ''HOST''" and hr' = S_OK and rows = "[row_a]"]
  from inst run_ab one_match_each_main_a have "one_match_each main_run" by simp
  moreover from inst ma rows_a have "length [row_a] = length (MatchingNames match_ab)"
    by blast
  ultimately show ?thesis
    using run_ab one_match_each_main_a ingest_link ka ma rows_a
    by (simp add: match_link_def)
qed

section \<open>The stream pipeline\<close>

lemma S_OK_not_E_INVALIDARG: "E_INVALIDARG \<noteq> S_OK"
  by (simp add: S_OK_def E_INVALIDARG_def)

lemma FAILED_not_S_OK: "FAILED hr \<Longrightarrow> hr \<noteq> S_OK"
  using not_FAILED_S_OK by auto

lemma source_stream_chain_crypto:
  "chain_crypto P cfg stream s = Inr (up, s') \<Longrightarrow> source_stream up = source_stream stream"
  by (auto simp: chain_crypto_def Let_def split: if_splits)

lemma source_stream_chain_fuzzy:
  "chain_fuzzy P cfg stream s = Inr (up, s') \<Longrightarrow> source_stream up = source_stream stream"
  by (auto simp: chain_fuzzy_def Let_def split: if_splits)

lemma chain_crypto_not_S_OK: "chain_crypto P cfg stream s = Inl (hr, s') \<Longrightarrow> hr \<noteq> S_OK"
  by (auto simp: chain_crypto_def Let_def FAILED_not_S_OK split: if_splits)

lemma chain_fuzzy_not_S_OK: "chain_fuzzy P cfg stream s = Inl (hr, s') \<Longrightarrow> hr \<noteq> S_OK"
  by (auto simp: chain_fuzzy_def Let_def FAILED_not_S_OK split: if_splits)

lemma base_stream_not_S_OK: "base_stream P cfg s attr = Inl hr \<Longrightarrow> hr \<noteq> S_OK"
  by (auto simp: base_stream_def Let_def FAILED_not_S_OK split: ContentType.splits if_splits)

lemma ConfigureSampleStreams_S_OK:
  assumes "ConfigureSampleStreams P cfg s = Inr (S_OK, s')"
  shows "\<exists>attr stream. sample_attribute s = Some attr \<and> base_stream P cfg s attr = Inr stream
           \<and> map_option source_stream (CopyStream s') = Some (source_stream stream)"
proof -
  from assms have name: "SampleName s \<noteq> []"
    by (auto simp: ConfigureSampleStreams_def S_OK_not_E_INVALIDARG split: if_splits)
  with assms obtain attr where attr: "sample_attribute s = Some attr"
    by (auto simp: ConfigureSampleStreams_def split: option.splits)
  from assms name attr obtain stream where base: "base_stream P cfg s attr = Inr stream"
    by (cases "base_stream P cfg s attr")
       (auto simp: ConfigureSampleStreams_def dest: base_stream_not_S_OK)
  from assms name attr base obtain up s1 where
    crypto: "chain_crypto P cfg stream s = Inr (up, s1)"
    by (cases "chain_crypto P cfg stream s")
       (auto simp: ConfigureSampleStreams_def dest: chain_crypto_not_S_OK)
  from assms name attr base crypto obtain up2 s2 where
    fuzzy: "chain_fuzzy P cfg up s1 = Inr (up2, s2)"
    by (cases "chain_fuzzy P cfg up s1")
       (auto simp: ConfigureSampleStreams_def dest: chain_fuzzy_not_S_OK)
  from assms name attr base crypto fuzzy have "CopyStream s' = Some up2"
    by (auto simp: ConfigureSampleStreams_def)
  with source_stream_chain_crypto [OF crypto] source_stream_chain_fuzzy [OF fuzzy] attr base
  show ?thesis by simp
qed

text \<open>
  C7. For a sample whose content is STRINGS, \<^verbatim>\<open>ConfigureSampleStreams\<close> opens the strings
  extractor over the data stream of the attribute with the sample's own minimum and
  maximum, and with those of the global configuration when both of the sample's are zero;
  when the function succeeds, the copy stream is this extractor under the hash readers.
\<close>

theorem strings_extractor_parameters:
  assumes "Type (Content sampleRef) = STRINGS"
    and "sample_attribute sampleRef = Some attr"
  shows "base_stream P cfg sampleRef attr =
           (case strings_parameters cfg sampleRef of
              (minChars, maxChars) \<Rightarrow>
                if FAILED (OpenForStrings P (DataStream attr) minChars maxChars)
                then Inl (OpenForStrings P (DataStream attr) minChars maxChars)
                else Inr (StringsStream (DataStream attr) minChars maxChars))
       \<and> (ConfigureSampleStreams P cfg sampleRef = Inr (S_OK, configured) \<longrightarrow>
            map_option source_stream (CopyStream configured) =
              Some (case strings_parameters cfg sampleRef of
                      (minChars, maxChars) \<Rightarrow> StringsStream (DataStream attr) minChars maxChars))"
proof -
  have base: "base_stream P cfg sampleRef attr =
           (case strings_parameters cfg sampleRef of
              (minChars, maxChars) \<Rightarrow>
                if FAILED (OpenForStrings P (DataStream attr) minChars maxChars)
                then Inl (OpenForStrings P (DataStream attr) minChars maxChars)
                else Inr (StringsStream (DataStream attr) minChars maxChars))"
    using assms(1) by (auto simp: base_stream_def strings_parameters_def Let_def)
  have "map_option source_stream (CopyStream configured) =
              Some (case strings_parameters cfg sampleRef of
                      (minChars, maxChars) \<Rightarrow> StringsStream (DataStream attr) minChars maxChars)"
    if ok: "ConfigureSampleStreams P cfg sampleRef = Inr (S_OK, configured)"
  proof -
    from ConfigureSampleStreams_S_OK [OF ok] assms(2) obtain stream where
      s: "base_stream P cfg sampleRef attr = Inr stream"
      and c: "map_option source_stream (CopyStream configured) = Some (source_stream stream)"
      by auto
    from s base have "stream = (case strings_parameters cfg sampleRef of
                      (minChars, maxChars) \<Rightarrow> StringsStream (DataStream attr) minChars maxChars)"
      by (auto split: prod.splits if_splits)
    with c show ?thesis by (auto split: prod.splits)
  qed
  with base show ?thesis by blast
qed

lemma configure_strings:
  "ConfigureSampleStreams platform0 config0 strings_sample = Inr (S_OK, strings_configured)"
  by (simp add: ConfigureSampleStreams_def sample_attribute_def match_ab_def base_stream_def
       chain_crypto_def chain_fuzzy_def config0_def Undefined_def Let_def strings_sample_def
       attr_b_def platform0_def not_FAILED_S_OK strings_configured_def SampleRef_default_def
       wide_def)

theorem strings_extractor_parameters_witness:
  "Type (Content strings_sample) = STRINGS
   \<and> sample_attribute strings_sample = Some attr_b
   \<and> MinChars (Content strings_sample) = 0 \<and> MaxChars (Content strings_sample) = 0
   \<and> base_stream platform0 config0 strings_sample attr_b
       = Inr (StringsStream (AttributeStream 3) 3 1024)
   \<and> ConfigureSampleStreams platform0 config0 strings_sample = Inr (S_OK, strings_configured)
   \<and> map_option source_stream (CopyStream strings_configured)
       = Some (StringsStream (AttributeStream 3) 3 1024)"
proof -
  have t: "Type (Content strings_sample) = STRINGS"
    and z: "MinChars (Content strings_sample) = 0" "MaxChars (Content strings_sample) = 0"
    by (simp_all add: strings_sample_def)
  have a: "sample_attribute strings_sample = Some attr_b"
    by (simp add: sample_attribute_def strings_sample_def match_ab_def)
  have p: "strings_parameters config0 strings_sample = (3, 1024)"
    by (simp add: strings_parameters_def strings_sample_def config0_def)
  have d: "DataStream attr_b = AttributeStream 3"
    by (simp add: attr_b_def)
  have o: "\<not> FAILED (OpenForStrings platform0 (AttributeStream 3) 3 1024)"
    by (simp add: platform0_def not_FAILED_S_OK)
  from strings_extractor_parameters [OF t a, of platform0 config0 strings_configured]
    configure_strings p d o
  have "base_stream platform0 config0 strings_sample attr_b
          = Inr (StringsStream (AttributeStream 3) 3 1024)
        \<and> map_option source_stream (CopyStream strings_configured)
          = Some (StringsStream (AttributeStream 3) 3 1024)"
    by simp
  with t z a configure_strings show ?thesis by simp
qed

section \<open>Hash finalization and the sinks\<close>

lemma csv_row_hashes:
  "csv_row computer s m name = Inr row \<Longrightarrow>
     length row = 28 \<and> row ! 5 = (if OffLimits s then WriteNothing else WriteString (SampleName s))
     \<and> row ! 25 = WriteBytes (SSDeep s) \<and> row ! 26 = WriteBytes (TLSH s)"
  by (auto simp: csv_row_def Let_def split: option.splits if_splits)

lemma csv_rows_each:
  "csv_rows computer s pairs = Inr rows \<Longrightarrow> row \<in> set rows \<Longrightarrow>
     \<exists>m name. csv_row computer s m name = Inr row"
proof (induction pairs arbitrary: rows)
  case Nil
  then show ?case by simp
next
  case (Cons p rest)
  obtain m n where p: "p = (m, n)" by (cases p)
  from Cons.prems p obtain r rows' where
    r: "csv_row computer s m n = Inr r"
    and rest: "csv_rows computer s rest = Inr rows'" and rows: "rows = r # rows'"
    by (auto split: sum.splits)
  show ?case
  proof (cases "row = r")
    case True
    with r show ?thesis by blast
  next
    case False
    with Cons.prems rows have "row \<in> set rows'" by simp
    from Cons.IH [OF rest this] show ?thesis .
  qed
qed

lemma AddSampleRefToCSV_each:
  assumes "AddSampleRefToCSV computer s = Inr (hr, rows)" and "row \<in> set rows"
  shows "\<exists>m name. csv_row computer s m name = Inr row"
proof -
  from assms(1) have "csv_rows computer s
      (concat (map (\<lambda>match. map (Pair match) (MatchingNames match)) (Matches s))) = Inr rows"
    by (auto simp: AddSampleRefToCSV_def split: sum.splits)
  from csv_rows_each [OF this assms(2)] show ?thesis .
qed

text \<open>
  C10. For a sample without a crypto-hash stream \<^verbatim>\<open>FinalizeHashes\<close> returns at once: the
  sample and the streams are as before. A sample that ingestion creates while no crypto
  algorithm is configured has no such stream and empty SSDEEP and TLSH buffers; so
  these stay empty in every row written for it after finalization, whether or not a
  fuzzy-hash stream was chained.
\<close>

theorem fuzzy_hashes_stay_empty_without_crypto_stream:
  "(HashStream sample = None \<longrightarrow> FinalizeHashes P cfg sample reads = Inr (sample, reads))
   \<and> (AddSamplesForMatch P status aSpec aMatch st = Inr (hr, st') \<longrightarrow>
        CryptoHashAlgs (config st) = Undefined \<longrightarrow>
        Samples st k = None \<longrightarrow> Samples st' k = Some s \<longrightarrow>
        HashStream s = None \<and> SSDeep s = [] \<and> TLSH s = [])
   \<and> (HashStream sample = None \<longrightarrow> SSDeep sample = [] \<longrightarrow> TLSH sample = [] \<longrightarrow>
        FinalizeHashes P cfg sample reads = Inr (finalized, reads') \<longrightarrow>
        AddSampleRefToCSV computer finalized = Inr (hr', rows) \<longrightarrow>
        (\<forall>row \<in> set rows. row ! 25 = WriteBytes [] \<and> row ! 26 = WriteBytes []))"
proof (intro conjI impI ballI)
  assume "HashStream sample = None"
  then show "FinalizeHashes P cfg sample reads = Inr (sample, reads)"
    by (simp add: FinalizeHashes_def)
next
  assume add: "AddSamplesForMatch P status aSpec aMatch st = Inr (hr, st')"
    and u: "CryptoHashAlgs (config st) = Undefined"
    and "Samples st k = None" "Samples st' k = Some s"
  with AddSamplesForMatch_registry [OF add] obtain i where
    "fresh_sample (config st) status aMatch i s" by blast
  with u show "HashStream s = None" "SSDeep s = []" "TLSH s = []"
    by (simp_all add: fresh_sample_def)
next
  fix row
  assume h: "HashStream sample = None" and e: "SSDeep sample = []" "TLSH sample = []"
    and f: "FinalizeHashes P cfg sample reads = Inr (finalized, reads')"
    and r: "AddSampleRefToCSV computer finalized = Inr (hr', rows)" "row \<in> set rows"
  from h f have "finalized = sample" by (simp add: FinalizeHashes_def)
  moreover from AddSampleRefToCSV_each [OF r] obtain m name where
    "csv_row computer finalized m name = Inr row" by blast
  ultimately show "row ! 25 = WriteBytes []" "row ! 26 = WriteBytes []"
    using e csv_row_hashes by auto
qed

lemma rows_b: "AddSampleRefToCSV (wide ''HOST'') sample_b = Inr (S_OK, [row_b])"
  by (simp add: AddSampleRefToCSV_def sample_b_def SampleRef_default_def match_ab_def
      name0_def csv_row_def short_file_name_def attr_a_def attr_b_def QuadPart_def
      data_content_def term0_def no_times_def GUID_NULL_def row_b_def)

lemma config_main_a: "config main_a = config0" "ComputerName main_a = wide ''HOST''"
  by (simp_all add: main_a_def main0_def)

theorem fuzzy_hashes_stay_empty_without_crypto_stream_witness:
  "AddSamplesForMatch platform0 NoLimits spec0 match_ab main_a = Inr (S_OK, main_ab)
   \<and> CryptoHashAlgs (config main_a) = Undefined
   \<and> FuzzyHashAlgs (config main_a) \<noteq> Undefined
   \<and> Samples main_a (attribute_key match_ab attr_b) = None
   \<and> Samples main_ab (attribute_key match_ab attr_b) = Some sample_b
   \<and> HashStream sample_b = None
   \<and> FuzzyHashStream_ref sample_b = Some (FuzzyHashStream 1 (AttributeStream 3))
   \<and> FinalizeHashes platform0 config0 sample_b {} = Inr (sample_b, {})
   \<and> GetSSDeep platform0 {} (FuzzyHashStream 1 (AttributeStream 3)) = [4]
   \<and> AddSampleRefToCSV (wide ''HOST'') sample_b = Inr (S_OK, [row_b])
   \<and> row_b ! 25 = WriteBytes [] \<and> row_b ! 26 = WriteBytes []"
proof -
  have kb: "Samples main_a (attribute_key match_ab attr_b) = None"
    using keys_ab by (simp add: main_a_def)
  have sb: "Samples main_ab (attribute_key match_ab attr_b) = Some sample_b"
    by (simp add: main_ab_def)
  have u: "CryptoHashAlgs (config main_a) = Undefined"
    and f: "FuzzyHashAlgs (config main_a) \<noteq> Undefined"
    by (simp_all add: config_main_a config0_def Undefined_def)
  have fz: "FuzzyHashStream_ref sample_b = Some (FuzzyHashStream 1 (AttributeStream 3))"
    by (simp add: sample_b_def)
  have g: "GetSSDeep platform0 {} (FuzzyHashStream 1 (AttributeStream 3)) = [4]"
    by (simp add: platform0_def)
  note inst = fuzzy_hashes_stay_empty_without_crypto_stream
    [where sample = sample_b and P = platform0 and cfg = config0 and reads = "{}"
       and status = NoLimits and aSpec = spec0 and aMatch = match_ab and st = main_a
       and hr = S_OK and st' = main_ab and k = "attribute_key match_ab attr_b"
       and s = sample_b and finalized = sample_b and reads' = "{}"
       and computer = "wide ''HOST''" and hr' = S_OK and rows = "[row_b]"]
  from inst ingest_ab u kb sb
  have h: "HashStream sample_b = None" "SSDeep sample_b = []" "TLSH sample_b = []"
    by simp_all
  from inst h have fin: "FinalizeHashes platform0 config0 sample_b {} = Inr (sample_b, {})"
    by simp
  from inst h fin rows_b have "row_b ! 25 = WriteBytes [] \<and> row_b ! 26 = WriteBytes []"
    by simp
  with ingest_ab u f kb sb h fz fin g rows_b show ?thesis by simp
qed

lemma WriteSample_archive_off_limits:
  "Samples st k = Some sample \<Longrightarrow> OffLimits sample \<Longrightarrow>
     WriteSample_archive P k st = Inr (S_OK, st)"
  by (simp add: WriteSample_archive_def)

lemma WriteSample_directory_off_limits:
  "Samples st k = Some sample \<Longrightarrow> OffLimits sample \<Longrightarrow>
     WriteSample_directory P outputDir k st = Inr (S_OK, st)"
  by (simp add: WriteSample_directory_def)

lemma rows_off:
  "AddSampleRefToCSV (wide ''HOST'') sample_off = Inr (S_OK, [row_a[5 := WriteNothing]])"
  by (simp add: AddSampleRefToCSV_def sample_off_def sample_a_def SampleRef_default_def
      match_ab_def name0_def csv_row_def short_file_name_def attr_a_def attr_b_def QuadPart_def
      data_content_def term0_def no_times_def GUID_NULL_def row_a_def)

text \<open>
  C2 at a sample that is off limits: neither \<^verbatim>\<open>WriteSample\<close> adds an archive entry or
  writes a file, and neither writes a row: the state is as before, also after the queue
  of the encoder is flushed, and nothing has been written. \<^verbatim>\<open>AddSampleRefToCSV\<close>, had it been
  called, would have written the row of the sample with its sixth cell empty.
\<close>

theorem WriteSample_off_limits_writes_no_row:
  "Samples main_off (attribute_key match_ab attr_a) = Some sample_off
   \<and> OffLimits sample_off
   \<and> written main_off = []
   \<and> WriteSample_archive platform0 (attribute_key match_ab attr_a) main_off
       = Inr (S_OK, main_off)
   \<and> FlushQueue platform0 main_off = Inr main_off
   \<and> WriteSample_directory platform0 (wide ''out'') (attribute_key match_ab attr_a) main_off
       = Inr (S_OK, main_off)
   \<and> AddSampleRefToCSV (wide ''HOST'') sample_off = Inr (S_OK, [row_a[5 := WriteNothing]])"
proof -
  have s: "Samples main_off (attribute_key match_ab attr_a) = Some sample_off"
    by (simp add: main_off_def)
  have o: "OffLimits sample_off"
    by (simp add: sample_off_def)
  have w: "written main_off = []"
    by (simp add: main_off_def main0_def)
  have f: "FlushQueue platform0 main_off = Inr main_off"
    by (simp add: FlushQueue_def main_off_def main0_def)
  show ?thesis
    using s o w f WriteSample_archive_off_limits [OF s o]
      WriteSample_directory_off_limits [OF s o] rows_off
    by simp
qed








section \<open>The name search and the ingestion return\<close>

lemma unat_digit: "d < 10 \<Longrightarrow> unat (of_nat (48 + d) :: WCHAR) = 48 + d"
proof -
  assume "d < 10"
  then have "(48 + d) mod 2 ^ LENGTH(16) = 48 + d" by simp
  then show ?thesis by (simp only: unat_of_nat)
qed

lemma dec_value_dec_of: "dec_value (dec_of n) = n"
proof (induction n rule: dec_of.induct)
  case (1 n)
  show ?case
  proof (cases "n < 10")
    case True
    with unat_digit [of n] show ?thesis
      by (simp add: dec_of.simps [of n] dec_value_def del: of_nat_add)
  next
    case False
    have "unat (of_nat (48 + n mod 10) :: WCHAR) = 48 + n mod 10"
      by (rule unat_digit) simp
    with False "1.IH" show ?thesis
      by (simp add: dec_of.simps [of n] dec_value_def del: of_nat_add)
  qed
qed

lemma dec_of_inject: "dec_of a = dec_of b \<Longrightarrow> a = b"
  by (metis dec_value_dec_of)

lemma length_dec_of: "0 < k \<Longrightarrow> n < 10 ^ k \<Longrightarrow> length (dec_of n) \<le> k"
proof (induction n arbitrary: k rule: dec_of.induct)
  case (1 n)
  show ?case
  proof (cases "n < 10")
    case True
    then show ?thesis using "1.prems" by (simp add: dec_of.simps [of n])
  next
    case False
    with "1.prems" obtain k' where k': "k = Suc k'" "0 < k'"
      by (cases k; cases "k - 1") auto
    have "n div 10 < 10 ^ k'"
      using "1.prems" k' by (simp add: less_mult_imp_div_less mult.commute)
    then have "length (dec_of (n div 10)) \<le> k'"
      using "1.IH" False k' by simp
    then show ?thesis using False k' by (simp add: dec_of.simps [of n])
  qed
qed

lemma length_dec_of_DWORD: "length (dec_of (unat (idx :: DWORD))) \<le> 10"
proof -
  have "unat idx < 2 ^ 32" using unsigned_less [of idx] by simp
  then have "unat idx < 10 ^ 10" by simp
  then show ?thesis by (intro length_dec_of) simp_all
qed

lemma dec_of_digits: "c \<in> set (dec_of n) \<Longrightarrow> \<exists>d < 10. c = of_nat (48 + d)"
proof (induction n rule: dec_of.induct)
  case (1 n)
  show ?case
  proof (cases "n < 10")
    case True
    with "1.prems" show ?thesis by (auto simp: dec_of.simps [of n])
  next
    case False
    with "1.prems" have "c \<in> set (dec_of (n div 10)) \<or> c = of_nat (48 + n mod 10)"
      by (auto simp: dec_of.simps [of n])
    then show ?thesis
    proof
      assume "c \<in> set (dec_of (n div 10))"
      with "1.IH" False show ?thesis by blast
    next
      assume "c = of_nat (48 + n mod 10)"
      moreover have "n mod 10 < 10" by simp
      ultimately show ?thesis by blast
    qed
  qed
qed

lemma digit_not_reserved:
  assumes "d < 10"
  shows "(of_nat (48 + d) :: WCHAR) \<noteq> wchar CHR '':''
       \<and> (of_nat (48 + d) :: WCHAR) \<noteq> wchar CHR ''#''"
proof -
  have u: "unat (of_nat (48 + d) :: WCHAR) = 48 + d"
    using assms by (rule unat_digit)
  have c: "unat (wchar CHR '':'') = 58" "unat (wchar CHR ''#'') = 35"
    by (simp_all add: wchar_def)
  have "unat (of_nat (48 + d) :: WCHAR) \<noteq> unat (wchar CHR '':'')"
    "unat (of_nat (48 + d) :: WCHAR) \<noteq> unat (wchar CHR ''#'')"
    unfolding u c using assms by simp_all
  then show ?thesis by metis
qed

lemma replace_reserved_dec_of:
  assumes "digits_not_space P"
  shows "map (replace_reserved (iswspace P)) (dec_of n) = dec_of n"
proof -
  have "replace_reserved (iswspace P) c = c" if "c \<in> set (dec_of n)" for c
  proof -
    from dec_of_digits [OF that] obtain d where d: "d < 10" "c = of_nat (48 + d)" by blast
    from assms have "\<forall>d \<in> {0 ..< 10 :: nat}. \<not> iswspace P (of_nat (48 + d))"
      by (simp only: digits_not_space_def list_all_iff set_upt)
    with d have "\<not> iswspace P c" by (simp del: of_nat_add)
    with d digit_not_reserved [of d] show ?thesis
      by (simp add: replace_reserved_def del: of_nat_add)
  qed
  then show ?thesis by (simp add: map_idI)
qed

lemma candidate_indexed:
  assumes "digits_not_space P" and "idx \<noteq> 0"
  shows "\<exists>A B. \<forall>i. i \<noteq> 0 \<longrightarrow>
           candidate P aSpec cspec fn data_name i = A @ dec_of (unat i) @ B"
proof (cases "data_name = []")
  case True
  show ?thesis
    apply (rule exI [where x = "(if Name aSpec \<noteq> [] then Name aSpec @ wide [CHR 0x5C] else [])
        @ map (replace_reserved (iswspace P))
            (parent_reference_hex (ParentDirectory fn) @ wide ''__''
               @ c_str (take (unat (FileNameLength fn)) (FileName fn)) @ wide ''_'')"])
    apply (rule exI [where x = "map (replace_reserved (iswspace P))
        (wide ''_'' @ content_tag cspec)"])
    using True assms(1)
    apply (simp add: candidate_def sample_name_text_def Let_def replace_reserved_dec_of)
    done
next
  case False
  show ?thesis
    apply (rule exI [where x = "(if Name aSpec \<noteq> [] then Name aSpec @ wide [CHR 0x5C] else [])
        @ map (replace_reserved (iswspace P))
            (parent_reference_hex (ParentDirectory fn) @ wide ''_''
               @ c_str (take (unat (FileNameLength fn)) (FileName fn)) @ wide ''_''
               @ c_str data_name @ wide ''_'')"])
    apply (rule exI [where x = "map (replace_reserved (iswspace P))
        (wide ''_'' @ content_tag cspec)"])
    using False assms(1)
    apply (simp add: candidate_def sample_name_text_def Let_def replace_reserved_dec_of)
    done
qed

lemma candidate_inject:
  assumes "digits_not_space P" and "i \<noteq> 0" and "j \<noteq> 0"
    and "candidate P aSpec cspec fn data_name i = candidate P aSpec cspec fn data_name j"
  shows "i = j"
proof -
  from candidate_indexed [OF assms(1,2)] obtain A B where
    "\<forall>i. i \<noteq> 0 \<longrightarrow> candidate P aSpec cspec fn data_name i = A @ dec_of (unat i) @ B"
    by blast
  with assms(2,3,4) have "A @ dec_of (unat i) @ B = A @ dec_of (unat j) @ B"
    by metis
  then have "dec_of (unat i) = dec_of (unat j)" by simp
  then have "unat i = unat j" by (rule dec_of_inject)
  then show ?thesis by (simp add: word_unat_eq_iff)
qed

lemma length_content_tag: "length (content_tag cspec) \<le> 7"
  by (simp add: content_tag_def wide_def)

lemma length_c_str: "length (c_str s) \<le> length s"
  by (simp add: c_str_def length_takeWhile_le)

lemma length_sample_name_text:
  "length (sample_name_text cspec fn data_name idx)
     \<le> 37 + unat (FileNameLength fn) + length data_name"
proof -
  have n: "length (c_str (take (unat (FileNameLength fn)) (FileName fn)))
             \<le> unat (FileNameLength fn)"
    using length_c_str [of "take (unat (FileNameLength fn)) (FileName fn)"] by simp
  note d = length_c_str [of data_name]
  note t = length_content_tag [of cspec]
  note i = length_dec_of_DWORD [of idx]
  show ?thesis
    using n d t i
    by (simp add: sample_name_text_def Let_def length_parent_reference_hex wide_def)
qed

text \<open>One turn of the loop, for a name that fits the buffer.\<close>

lemma unused_sample_name_step:
  assumes "length (sample_name_text cspec fn data_name idx) < MAX_PATH"
  shows "unused_sample_name P names aSpec cspec (Some fn) data_name idx cab =
           (if candidate P aSpec cspec fn data_name idx \<in> names
            then (if idx + 1 = 0 then Inl NeverReturns
                  else unused_sample_name P names aSpec cspec (Some fn) data_name (idx + 1)
                         (candidate P aSpec cspec fn data_name idx))
            else Inr (candidate P aSpec cspec fn data_name idx))"
proof (cases "Name aSpec = []")
  case True
  with assms show ?thesis
    by (subst unused_sample_name.simps)
       (simp add: CreateSampleFileName_formatted not_FAILED_S_OK candidate_def Let_def)
next
  case False
  with assms show ?thesis
    by (subst unused_sample_name.simps)
       (simp add: CreateSampleFileName_formatted not_FAILED_S_OK candidate_def Let_def)
qed

text \<open>
  The loop takes the first index, counted from the one it starts with, whose name is
  not in use, when the names up to it fit the buffer.
\<close>

lemma unused_sample_name_first_unused:
  assumes "\<forall>i \<le> j. length (sample_name_text cspec fn data_name (idx + of_nat i)) < MAX_PATH"
    and "\<forall>i < j. candidate P aSpec cspec fn data_name (idx + of_nat i) \<in> names"
    and "candidate P aSpec cspec fn data_name (idx + of_nat j) \<notin> names"
    and "unat idx + j < 2 ^ 32"
  shows "unused_sample_name P names aSpec cspec (Some fn) data_name idx cab
           = Inr (candidate P aSpec cspec fn data_name (idx + of_nat j))"
  using assms
proof (induction j arbitrary: idx cab)
  case 0
  from 0(1) have "length (sample_name_text cspec fn data_name idx) < MAX_PATH" by simp
  from unused_sample_name_step [OF this, of P names aSpec cab] 0(3) show ?case
    by simp
next
  case (Suc j)
  from Suc.prems(1) [rule_format, of 0]
  have fit0: "length (sample_name_text cspec fn data_name idx) < MAX_PATH"
    by simp
  from Suc.prems(2) [rule_format, of 0]
  have used0: "candidate P aSpec cspec fn data_name idx \<in> names"
    by simp
  have u: "unat (idx + 1) = Suc (unat idx)" and nz: "idx + 1 \<noteq> 0"
  proof -
    have "unat idx + 1 < 2 ^ 32" using Suc.prems(4) by simp
    then have "unat idx + unat (1 :: DWORD) < 2 ^ LENGTH(32)" by simp
    then have "unat (idx + 1) = unat idx + unat (1 :: DWORD)"
      by (rule unat_add_lem [THEN iffD1])
    then show s: "unat (idx + 1) = Suc (unat idx)" by simp
    show "idx + 1 \<noteq> 0"
    proof
      assume "idx + 1 = 0"
      then have "unat (idx + 1) = 0" by simp
      with s show False by simp
    qed
  qed
  have shift: "\<And>i. idx + 1 + of_nat i = idx + of_nat (Suc i)"
    by simp
  have "unused_sample_name P names aSpec cspec (Some fn) data_name (idx + 1)
          (candidate P aSpec cspec fn data_name idx)
        = Inr (candidate P aSpec cspec fn data_name (idx + 1 + of_nat j))"
  proof (rule Suc.IH)
    show "\<forall>i \<le> j. length (sample_name_text cspec fn data_name (idx + 1 + of_nat i)) < MAX_PATH"
      unfolding shift using Suc.prems(1) by (simp del: of_nat_Suc)
    show "\<forall>i < j. candidate P aSpec cspec fn data_name (idx + 1 + of_nat i) \<in> names"
      unfolding shift using Suc.prems(2) by (simp del: of_nat_Suc)
    show "candidate P aSpec cspec fn data_name (idx + 1 + of_nat j) \<notin> names"
      unfolding shift using Suc.prems(3) .
    show "unat (idx + 1) + j < 2 ^ 32"
      using Suc.prems(4) u by simp
  qed
  then have "unused_sample_name P names aSpec cspec (Some fn) data_name (idx + 1)
          (candidate P aSpec cspec fn data_name idx)
        = Inr (candidate P aSpec cspec fn data_name (idx + of_nat (Suc j)))"
    unfolding shift .
  with used0 nz show ?case
    by (simp only: unused_sample_name_step [OF fit0, of P names aSpec cab] if_True if_False)
qed

text \<open>
  A finite set of names in use leaves an index free: the names of the indices from 1
  differ from each other.
\<close>

lemma unused_index_exists:
  assumes "digits_not_space P" and "finite names" and "card names < 2 ^ 32 - 1"
  shows "\<exists>j \<le> Suc (card names). candidate P aSpec cspec fn data_name (of_nat j) \<notin> names
           \<and> (\<forall>i < j. candidate P aSpec cspec fn data_name (of_nat i) \<in> names)"
proof -
  let ?c = "\<lambda>i :: nat. candidate P aSpec cspec fn data_name (of_nat (Suc i))"
  let ?d = "\<lambda>i :: nat. candidate P aSpec cspec fn data_name (of_nat i)"
  have "\<exists>j \<le> card names. ?c j \<notin> names"
  proof (rule ccontr)
    assume "\<not> (\<exists>j \<le> card names. ?c j \<notin> names)"
    then have all: "?c ` {..card names} \<subseteq> names" by auto
    have inj: "inj_on ?c {..card names}"
    proof (rule inj_onI)
      fix x y assume x: "x \<in> {..card names}" and y: "y \<in> {..card names}" and e: "?c x = ?c y"
      have bx: "Suc x < 2 ^ 32" and by': "Suc y < 2 ^ 32" using x y assms(3) by auto
      have ux: "unat (of_nat (Suc x) :: DWORD) = Suc x"
        using bx by (simp only: unat_of_nat) simp
      have uy: "unat (of_nat (Suc y) :: DWORD) = Suc y"
        using by' by (simp only: unat_of_nat) simp
      have nx: "(of_nat (Suc x) :: DWORD) \<noteq> 0"
      proof
        assume "(of_nat (Suc x) :: DWORD) = 0"
        then have "unat (of_nat (Suc x) :: DWORD) = 0" by (simp only: unat_0)
        with ux show False by simp
      qed
      have ny: "(of_nat (Suc y) :: DWORD) \<noteq> 0"
      proof
        assume "(of_nat (Suc y) :: DWORD) = 0"
        then have "unat (of_nat (Suc y) :: DWORD) = 0" by (simp only: unat_0)
        with uy show False by simp
      qed
      from candidate_inject [OF assms(1) nx ny e]
      have "(of_nat (Suc x) :: DWORD) = of_nat (Suc y)" .
      then have "unat (of_nat (Suc x) :: DWORD) = unat (of_nat (Suc y) :: DWORD)"
        by (simp only:)
      then show "x = y" by (simp only: ux uy Suc_inject)
    qed
    from card_image [OF inj] have "card (?c ` {..card names}) = Suc (card names)" by simp
    moreover from card_mono [OF assms(2) all] have "card (?c ` {..card names}) \<le> card names" .
    ultimately show False by simp
  qed
  then obtain k where k: "k \<le> card names" "?d (Suc k) \<notin> names" by blast
  define m where "m = (LEAST j. ?d j \<notin> names)"
  from k(2) have free: "?d m \<notin> names" unfolding m_def by (rule LeastI)
  from k(2) have "m \<le> Suc k" unfolding m_def by (rule Least_le)
  with k(1) have "m \<le> Suc (card names)" by simp
  moreover have "\<forall>i < m. ?d i \<in> names"
    using not_less_Least [of _ "\<lambda>j. ?d j \<notin> names"] unfolding m_def by blast
  ultimately show ?thesis using free by blast
qed

text \<open>
  The search for an unused name returns a name: the set of the names in use is finite and
  smaller than the range of the index, and the name fits the buffer with any index.
\<close>

lemma unused_sample_name_returns:
  assumes "digits_not_space P" and "finite names" and "card names < 2 ^ 32 - 1"
    and "unat (FileNameLength fn) + length data_name < 223"
  shows "\<exists>cab. unused_sample_name P names aSpec cspec (Some fn) data_name 0 [] = Inr cab
           \<and> cab \<notin> names"
proof -
  from unused_index_exists [OF assms(1,2,3), of aSpec cspec fn data_name]
  obtain j where j: "j \<le> Suc (card names)"
      "candidate P aSpec cspec fn data_name (of_nat j) \<notin> names"
      "\<forall>i < j. candidate P aSpec cspec fn data_name (of_nat i) \<in> names"
    by blast
  have fits: "length (sample_name_text cspec fn data_name idx) < MAX_PATH" for idx
    using length_sample_name_text [of cspec fn data_name idx] assms(4)
    by (simp add: MAX_PATH_def)
  have "unused_sample_name P names aSpec cspec (Some fn) data_name 0 []
          = Inr (candidate P aSpec cspec fn data_name (0 + of_nat j))"
  proof (rule unused_sample_name_first_unused)
    show "\<forall>i \<le> j. length (sample_name_text cspec fn data_name (0 + of_nat i)) < MAX_PATH"
      using fits by simp
    show "\<forall>i < j. candidate P aSpec cspec fn data_name (0 + of_nat i) \<in> names"
      using j(3) by simp
    show "candidate P aSpec cspec fn data_name (0 + of_nat j) \<notin> names"
      using j(2) by simp
    show "unat (0 :: DWORD) + j < 2 ^ 32"
      using j(1) assms(3) by simp
  qed
  with j(2) show ?thesis by simp
qed

lemma unused_sample_name_null:
  "unused_sample_name P names aSpec cspec None data_name 0 [] = Inr []"
  by (subst unused_sample_name.simps)
     (simp add: CreateSampleFileName_def FAILED_def E_POINTER_def)

lemma name_sample_returns:
  assumes "digits_not_space P" and "finite used"
    and "card used + length names < 2 ^ 32 - 1"
    and "names_fit names (AttrName anAttr)"
  shows "\<exists>used' s'. name_sample P aSpec anAttr date names used s = Inr (used', s')
           \<and> finite used' \<and> card used' \<le> card used + length names"
  using assms(2,3,4)
proof (induction names arbitrary: used s)
  case Nil
  then show ?case by simp
next
  case (Cons name rest)
  let ?s1 = "s\<lparr>Content := Content_spec aSpec, CollectionDate := date\<rparr>"
  have "\<exists>cab. unused_sample_name P used aSpec (Content ?s1) (FILENAME name) (AttrName anAttr)
                 0 [] = Inr cab"
  proof (cases "FILENAME name")
    case None
    then show ?thesis by (simp add: unused_sample_name_null)
  next
    case (Some fn)
    from Cons.prems(3) Some have "unat (FileNameLength fn) + length (AttrName anAttr) < 223"
      by (simp add: names_fit_def)
    moreover from Cons.prems(2) have "card used < 2 ^ 32 - 1" by simp
    ultimately show ?thesis
      using unused_sample_name_returns [OF assms(1) Cons.prems(1), of fn "AttrName anAttr"
               aSpec "Content ?s1"] Some
      by auto
  qed
  then obtain cab where cab:
    "unused_sample_name P used aSpec (Content ?s1) (FILENAME name) (AttrName anAttr) 0 []
       = Inr cab" by blast
  have fin: "finite (insert cab used)" using Cons.prems(1) by simp
  have c: "card (insert cab used) \<le> Suc (card used)"
    using Cons.prems(1) by (simp add: card_insert_if)
  with Cons.prems(2) have bound: "card (insert cab used) + length rest < 2 ^ 32 - 1" by simp
  from Cons.prems(3) have fit: "names_fit rest (AttrName anAttr)" by (simp add: names_fit_def)
  from Cons.IH [OF fin bound fit, of "?s1\<lparr>SampleName := cab\<rparr>"]
  obtain used' s' where r:
    "name_sample P aSpec anAttr date rest (insert cab used) (?s1\<lparr>SampleName := cab\<rparr>)
       = Inr (used', s')" "finite used'" "card used' \<le> card (insert cab used) + length rest"
    by blast
  from r(3) c have "card used' \<le> card used + length (name # rest)" by simp
  with cab r(1,2) show ?case by (simp add: Let_def)
qed

lemma ConfigureSampleStreams_returns:
  assumes "sample_attribute s \<noteq> None"
  shows "\<exists>hr s'. ConfigureSampleStreams P cfg s = Inr (hr, s')"
proof (cases "SampleName s = []")
  case True
  then show ?thesis by (simp add: ConfigureSampleStreams_def)
next
  case named: False
  from assms obtain attr where attr: "sample_attribute s = Some attr" by blast
  show ?thesis
  proof (cases "base_stream P cfg s attr")
    case (Inl hr)
    with named attr show ?thesis by (simp add: ConfigureSampleStreams_def)
  next
    case base: (Inr stream)
    show ?thesis
    proof (cases "chain_crypto P cfg stream s")
      case (Inl failed)
      obtain hr s' where "failed = (hr, s')" by (cases failed)
      with named attr base Inl show ?thesis by (simp add: ConfigureSampleStreams_def)
    next
      case (Inr chained)
      obtain upstream hashing where c: "chained = (upstream, hashing)" by (cases chained)
      show ?thesis
      proof (cases "chain_fuzzy P cfg upstream hashing")
        case (Inl failed)
        obtain hr s' where "failed = (hr, s')" by (cases failed)
        with named attr base Inr c Inl show ?thesis by (simp add: ConfigureSampleStreams_def)
      next
        case fuzzy: (Inr chained')
        obtain upstream' hashing' where "chained' = (upstream', hashing')" by (cases chained')
        with named attr base Inr c fuzzy show ?thesis
          by (simp add: ConfigureSampleStreams_def)
      qed
    qed
  qed
qed

lemma add_attribute_returns:
  assumes "digits_not_space P" and "finite (SampleNames st)"
    and "card (SampleNames st) + length (MatchingNames aMatch) < 2 ^ 32 - 1"
    and "MatchingNames aMatch \<noteq> []"
    and "names_fit (MatchingNames aMatch) (AttrName anAttr)"
    and "sIndex < length (MatchingAttributes aMatch)"
  shows "\<exists>hr st'. add_attribute P status aSpec aMatch anAttr sIndex st = Inr (hr, st')
           \<and> finite (SampleNames st')
           \<and> card (SampleNames st') \<le> card (SampleNames st) + length (MatchingNames aMatch)"
proof (cases "Samples st (attribute_key aMatch anAttr)")
  case (Some prevSample)
  from add_attribute_duplicate [OF this, of P status aSpec sIndex] assms(2,4)
  show ?thesis by simp
next
  case None
  define sampleRef where "sampleRef = SampleRef_default
           \<lparr>Matches := [aMatch],
            VolumeSerial := VolumeSerialNumber (VolumeReader aMatch),
            SnapshotID :=
              (case GetSnapshotID (VolumeReader aMatch) of
                 Some snapshot \<Rightarrow> snapshot
               | None \<Rightarrow> GUID_NULL),
            FRN := FRN_match aMatch,
            InstanceID := InstanceID_attr anAttr,
            AttributeIndex := sIndex,
            OffLimits :=
              (case status of
                 NoLimits \<Rightarrow> False
               | SampleWithinLimits \<Rightarrow> False
               | GlobalSampleCountLimitReached \<Rightarrow> True
               | GlobalMaxBytesPerSample \<Rightarrow> True
               | GlobalMaxBytesTotal \<Rightarrow> True
               | LocalSampleCountLimitReached \<Rightarrow> True
               | LocalMaxBytesPerSample \<Rightarrow> True
               | LocalMaxBytesTotal \<Rightarrow> True
               | FailedToComputeLimits \<Rightarrow> True)\<rparr>"
  have key: "sample_key sampleRef = attribute_key aMatch anAttr"
    by (simp add: sampleRef_def sample_key_def attribute_key_def)
  from name_sample_returns [OF assms(1,2,3,5), of aSpec "CollectionDate_run st" sampleRef]
  obtain names named where n:
    "name_sample P aSpec anAttr (CollectionDate_run st) (MatchingNames aMatch)
       (SampleNames st) sampleRef = Inr (names, named)"
    "finite names" "card names \<le> card (SampleNames st) + length (MatchingNames aMatch)"
    by blast
  from name_sample_result [OF n(1)]
  have "Matches named = [aMatch]" "AttributeIndex named = sIndex"
    by (simp_all add: sampleRef_def)
  with assms(6) have "sample_attribute named \<noteq> None"
    by (simp add: sample_attribute_def)
  from ConfigureSampleStreams_returns [OF this, of P "config st"]
  obtain hr configured where c: "ConfigureSampleStreams P (config st) named = Inr (hr, configured)"
    by blast
  have "add_attribute P status aSpec aMatch anAttr sIndex st
          = Inr (hr, st\<lparr>SampleNames := names,
                         Samples := (Samples st)(sample_key configured \<mapsto> configured)\<rparr>)"
    using None key n(1) c
    by (simp add: add_attribute_def Let_def sampleRef_def [symmetric])
  with n(2,3) show ?thesis by simp
qed

lemma add_attributes_returns:
  assumes "digits_not_space P" and "MatchingNames aMatch \<noteq> []"
    and "finite (SampleNames st)"
    and "card (SampleNames st) + length attrs * length (MatchingNames aMatch) < 2 ^ 32 - 1"
    and "list_all (\<lambda>anAttr. names_fit (MatchingNames aMatch) (AttrName anAttr)) attrs"
    and "sIndex + length attrs \<le> length (MatchingAttributes aMatch)"
  shows "\<exists>hr' st'. add_attributes P status aSpec aMatch attrs sIndex hr st = Inr (hr', st')"
  using assms(3,4,5,6)
proof (induction attrs arbitrary: sIndex hr st)
  case Nil
  then show ?case by simp
next
  case (Cons anAttr rest)
  from Cons.prems(2) have room:
    "card (SampleNames st) + length (MatchingNames aMatch) < 2 ^ 32 - 1"
    by simp
  from Cons.prems(3) have fit: "names_fit (MatchingNames aMatch) (AttrName anAttr)"
    and fits: "list_all (\<lambda>anAttr. names_fit (MatchingNames aMatch) (AttrName anAttr)) rest"
    by simp_all
  from Cons.prems(4) have i: "sIndex < length (MatchingAttributes aMatch)"
    and rest: "Suc sIndex + length rest \<le> length (MatchingAttributes aMatch)"
    by simp_all
  from add_attribute_returns [OF assms(1) Cons.prems(1) room assms(2) fit i, of status aSpec]
  obtain hr1 st1 where one:
    "add_attribute P status aSpec aMatch anAttr sIndex st = Inr (hr1, st1)"
    "finite (SampleNames st1)"
    "card (SampleNames st1) \<le> card (SampleNames st) + length (MatchingNames aMatch)"
    by blast
  from one(3) Cons.prems(2)
  have "card (SampleNames st1) + length rest * length (MatchingNames aMatch) < 2 ^ 32 - 1"
    by simp
  from Cons.IH [OF one(2) this fits rest, of hr1] one(1) show ?case
    by simp
qed

lemma AddSamplesForMatch_returns:
  assumes "ingestible P aMatch st"
  shows "\<exists>hr st'. AddSamplesForMatch P status aSpec aMatch st = Inr (hr, st')"
proof -
  from assms have a: "digits_not_space P" "MatchingNames aMatch \<noteq> []"
    "finite (SampleNames st)"
    "card (SampleNames st)
       + length (MatchingAttributes aMatch) * length (MatchingNames aMatch) < 2 ^ 32 - 1"
    "list_all (\<lambda>anAttr. names_fit (MatchingNames aMatch) (AttrName anAttr))
       (MatchingAttributes aMatch)"
    by (simp_all add: ingestible_def)
  have "0 + length (MatchingAttributes aMatch) \<le> length (MatchingAttributes aMatch)" by simp
  from add_attributes_returns [OF a this, of status aSpec E_FAIL]
  obtain hr' st' where
    "add_attributes P status aSpec aMatch (MatchingAttributes aMatch) 0 E_FAIL st
       = Inr (hr', st')" by blast
  then show ?thesis by (simp add: AddSamplesForMatch_def)
qed

lemma ingestible_main_a: "ingestible platform0 match_ab main_a"
proof -
  have "digits_not_space platform0"
    by (simp add: digits_not_space_def platform0_def iswspace_C_def
        upt_rec [of _ "numeral n" for n])
  moreover have "names_fit [name0] (AttrName attr_a)" "names_fit [name0] (AttrName attr_b)"
    by (simp_all add: names_fit_def name0_def short_file_name_def attr_a_def attr_b_def
        wide_def)
  ultimately show ?thesis
    by (simp add: ingestible_def match_ab_def main_a_def)
qed

text \<open>
  C3, as amended. \<^verbatim>\<open>AddSamplesForMatch\<close> returns for an ingestible match, and when it returns,
  it returns \<^verbatim>\<open>S_FALSE\<close> (AlreadyPresent)
  exactly when the last attribute of the match was already in the registry under its key
  (volume serial, FRN, instance id) when its turn came, that is, in the registry before
  the call or under the key of an earlier attribute of the match, and \<^verbatim>\<open>S_OK\<close> otherwise;
  and for an attribute whose key is in the registry the loop body generates no name and
  inserts no sample: it leaves the state as it is.
\<close>

theorem AddSamplesForMatch_returns_status_of_last_attribute:
  "(ingestible P aMatch st \<longrightarrow>
      (\<exists>hr st'. AddSamplesForMatch P status aSpec aMatch st = Inr (hr, st')))
   \<and> (\<forall>hr st'. AddSamplesForMatch P status aSpec aMatch st = Inr (hr, st') \<longrightarrow>
         hr = (if MatchingAttributes aMatch \<noteq> []
                  \<and> attribute_key aMatch (last (MatchingAttributes aMatch))
                      \<in> dom (Samples st)
                        \<union> attribute_key aMatch ` set (butlast (MatchingAttributes aMatch))
               then S_FALSE else S_OK))
   \<and> (\<forall>anAttr sIndex st0. Samples st0 (attribute_key aMatch anAttr) \<noteq> None \<longrightarrow>
         add_attribute P status aSpec aMatch anAttr sIndex st0
           = (if MatchingNames aMatch = [] then Inl UndefinedBehaviour
              else Inr (S_FALSE, st0)))"
proof (intro conjI allI impI)
  assume "ingestible P aMatch st"
  then show "\<exists>hr st'. AddSamplesForMatch P status aSpec aMatch st = Inr (hr, st')"
    by (rule AddSamplesForMatch_returns)
next
  fix hr st'
  assume "AddSamplesForMatch P status aSpec aMatch st = Inr (hr, st')"
  then obtain hr1 where
    loop: "add_attributes P status aSpec aMatch (MatchingAttributes aMatch) 0 E_FAIL st
             = Inr (hr1, st')"
    and hr: "hr = (if hr1 = S_FALSE then hr1 else S_OK)"
    by (auto simp: AddSamplesForMatch_def split: sum.splits)
  have "E_FAIL \<noteq> S_FALSE" by (simp add: E_FAIL_def S_FALSE_def)
  with add_attributes_hr [OF loop] hr S_OK_not_S_FALSE
  show "hr = (if MatchingAttributes aMatch \<noteq> []
                 \<and> attribute_key aMatch (last (MatchingAttributes aMatch))
                     \<in> dom (Samples st)
                       \<union> attribute_key aMatch ` set (butlast (MatchingAttributes aMatch))
               then S_FALSE else S_OK)"
    by (auto split: if_splits)
next
  fix anAttr sIndex and st0 :: Main
  assume "Samples st0 (attribute_key aMatch anAttr) \<noteq> None"
  then show "add_attribute P status aSpec aMatch anAttr sIndex st0
           = (if MatchingNames aMatch = [] then Inl UndefinedBehaviour
              else Inr (S_FALSE, st0))"
    using add_attribute_duplicate by auto
qed

theorem AddSamplesForMatch_returns_status_of_last_attribute_witness:
  "ingestible platform0 match_ab main_a
   \<and> AddSamplesForMatch platform0 NoLimits spec0 match_ab main_a = Inr (S_OK, main_ab)
   \<and> attribute_key match_ab attr_b
        \<notin> dom (Samples main_a) \<union> attribute_key match_ab ` set [attr_a]
   \<and> add_attribute platform0 NoLimits spec0 match_ab attr_a 7 main_ab = Inr (S_FALSE, main_ab)"
proof -
  note inst = AddSamplesForMatch_returns_status_of_last_attribute
                [of platform0 match_ab main_a NoLimits spec0]
  have attrs: "MatchingAttributes match_ab = [attr_a, attr_b]"
    by (simp add: match_ab_def)
  have names: "MatchingNames match_ab \<noteq> []"
    by (simp add: match_ab_def)
  have present: "Samples main_ab (attribute_key match_ab attr_a) \<noteq> None"
    using keys_ab by (simp add: main_ab_def)
  from inst [THEN conjunct1] ingestible_main_a
  have "\<exists>hr st'. AddSamplesForMatch platform0 NoLimits spec0 match_ab main_a = Inr (hr, st')"
    by simp
  then have returns: "AddSamplesForMatch platform0 NoLimits spec0 match_ab main_a
                        = Inr (S_OK, main_ab)"
    by (simp add: ingest_ab)
  from inst [THEN conjunct2, THEN conjunct1, rule_format, OF returns] attrs S_OK_not_S_FALSE
  have "attribute_key match_ab attr_b
          \<notin> dom (Samples main_a) \<union> attribute_key match_ab ` set [attr_a]"
    by (auto split: if_splits)
  moreover from inst [THEN conjunct2, THEN conjunct2, rule_format, OF present] names
  have "add_attribute platform0 NoLimits spec0 match_ab attr_a 7 main_ab = Inr (S_FALSE, main_ab)"
    by simp
  ultimately show ?thesis
    using ingestible_main_a returns by simp
qed

section \<open>The status that decides off-limits\<close>
























section \<open>The archive sink: rows after consumption\<close>





lemma configure_hashing:
  "ConfigureSampleStreams hashing_platform hashing_config sample_named
     = Inr (S_OK, sample_hashing)"
  by (simp add: ConfigureSampleStreams_def sample_attribute_def base_stream_def
      chain_crypto_def chain_fuzzy_def hashing_config_def config0_def Undefined_def Let_def
      hashing_platform_def platform0_def not_FAILED_S_OK sample_named_def sample_hashing_def
      hashing_copy_def sample_b_def SampleRef_default_def match_ab_def attr_a_def attr_b_def
      data_content_def wide_def)











end
